theory Spec2Isabelle
  imports Main
begin

section \<open>Outcomes of a storage call\<close>

text \<open>
  Every storage method is an \<^verbatim>\<open>async\<close> function. Its promise either resolves with
  a value or rejects with the exception thrown inside. A rejected call keeps the
  writes it made before the exception, so a call is modelled as a pair: how it ended,
  and the store it left behind.

  \<^item> \<open>TypeError\<close>: reading a property of \<^verbatim>\<open>undefined\<close>
    (\<^verbatim>\<open>photo.likeCount\<close> when the select returned no row);
  \<^item> \<open>Error msg\<close>: an explicit \<^verbatim>\<open>throw new Error(msg)\<close>;
  \<^item> \<open>DatabaseError\<close>: a statement rejected by the database.
\<close>

datatype error = TypeError | Error string | DatabaseError

datatype 'a outcome = Returned 'a | Raised error

section \<open>Entities\<close>

text \<open>
  The entity types are inferred from the tables of the shared schema module, which
  exists in two versions. \<^verbatim>\<open>MemStorage\<close> is written against the first: \<^verbatim>\<open>serial\<close> ids
  (numbers) and no \<^verbatim>\<open>isDeleted\<close> column anywhere. \<^verbatim>\<open>PostgresStorage\<close> is written
  against the second: \<^verbatim>\<open>uuid\<close> ids (strings) and an \<^verbatim>\<open>isDeleted\<close> column on every table.
  The code only stores ids and compares them for equality, so the records are
  polymorphic in the identifier type \<open>'k\<close>.

  The counters are declared \<^verbatim>\<open>integer(...).default(0)\<close>: nullable 32-bit columns.
  No method of either class writes \<^verbatim>\<open>null\<close> into one (the in-memory constructors
  write 0, an insert takes the default, every update writes a number), so a counter
  is modelled as an integer. The in-memory class keeps it as a JavaScript number and
  changes it by one; the relational class computes the new value in JavaScript and
  hands it to the database, which takes it only if it fits the column (see \<open>int4\<close>
  below). A \<^verbatim>\<open>Date\<close> is the clock reading handed to the operation that creates the
  entity. The \<^verbatim>\<open>isDeleted\<close> column that the second schema adds to the users, photos and
  comments tables is neither read nor written by the methods modelled here and is
  left out of the rows.
\<close>

record InsertUser =
  insert_username :: string
  insert_password :: string

record 'k User =
  user_id :: 'k
  username :: string
  password :: string
  displayName :: "string option"
  bio :: "string option"
  avatarUrl :: "string option"
  followerCount :: int

record 'k Photo =
  photo_id :: 'k
  photo_userId :: 'k
  imageUrl :: string
  caption :: "string option"
  photo_likeCount :: int
  commentCount :: int
  photo_createdAt :: nat

record 'k Comment =
  comment_id :: 'k
  comment_userId :: 'k
  comment_photoId :: 'k
  content :: string
  comment_likeCount :: int
  comment_createdAt :: nat

text \<open>The \<^verbatim>\<open>Follow\<close> object built by \<^verbatim>\<open>MemStorage.followUser\<close> has exactly three fields.\<close>

record Follow =
  follow_id :: nat
  followerId :: nat
  followingId :: nat

text \<open>
  \<^verbatim>\<open>Like\<close> and \<^verbatim>\<open>CommentLike\<close> as the first schema declares them: an id and the two
  foreign ids. \<^verbatim>\<open>MemStorage\<close> never builds one; it only reads \<^verbatim>\<open>like.photoId\<close> and
  \<^verbatim>\<open>like.userId\<close>.
\<close>

record Like =
  like_id :: nat
  like_userId :: nat
  like_photoId :: nat

record CommentLike =
  commentLike_id :: nat
  commentLike_userId :: nat
  commentLike_commentId :: nat

record Notification =
  notification_id :: nat
  notification_userId :: nat
  actorId :: nat
  notification_type :: string
  notification_photoId :: "nat option"
  notification_commentId :: "nat option"
  read :: bool
  notification_createdAt :: nat

section \<open>The in-memory store\<close>

text \<open>
  A JavaScript \<^verbatim>\<open>Map\<close> iterates in insertion order. The three relationship maps are
  iterated (\<^verbatim>\<open>values()\<close>, \<^verbatim>\<open>entries()\<close>, \<^verbatim>\<open>find\<close>), so they are lists of entries in
  insertion order. The other maps are only read and written by key
  (\<^verbatim>\<open>get\<close>, \<^verbatim>\<open>set\<close>) by the operations modelled here, so they are partial functions.
\<close>

type_synonym ('k, 'v) js_map = "('k \<times> 'v) list"

definition js_set :: "'k \<Rightarrow> 'v \<Rightarrow> ('k, 'v) js_map \<Rightarrow> ('k, 'v) js_map" where
  "js_set k v m =
     (if k \<in> fst ` set m then map (\<lambda>(k', v'). if k' = k then (k', v) else (k', v')) m
      else m @ [(k, v)])"

definition js_delete :: "'k \<Rightarrow> ('k, 'v) js_map \<Rightarrow> ('k, 'v) js_map" where
  "js_delete k m = filter (\<lambda>(k', _). k' \<noteq> k) m"

definition js_values :: "('k, 'v) js_map \<Rightarrow> 'v list" where
  "js_values m = map snd m"

record MemStorage =
  users :: "nat \<rightharpoonup> nat User"
  photos :: "nat \<rightharpoonup> nat Photo"
  follows :: "(nat, Follow) js_map"
  likes :: "(nat, Like) js_map"
  comments :: "nat \<rightharpoonup> nat Comment"
  commentLikes :: "(nat, CommentLike) js_map"
  notifications :: "nat \<rightharpoonup> Notification"
  currentId :: nat
  currentPhotoId :: nat
  currentCommentId :: nat
  currentFollowId :: nat
  currentNotificationId :: nat

text \<open>The constructor. The session store is an external collaborator and is left out.\<close>

definition MemStorage_new :: MemStorage where
  "MemStorage_new =
     \<lparr>users = Map.empty, photos = Map.empty, follows = [], likes = [],
      comments = Map.empty, commentLikes = [], notifications = Map.empty,
      currentId = 1, currentPhotoId = 1, currentCommentId = 1,
      currentFollowId = 1, currentNotificationId = 1\<rparr>"

text \<open>\<^verbatim>\<open>s || d\<close> on a string: the empty string is falsy.\<close>

definition or_string :: "string \<Rightarrow> string option \<Rightarrow> string option" where
  "or_string s d = (if s = [] then d else Some s)"

text \<open>\<^verbatim>\<open>x || null\<close> on an optional string or number: undefined, the empty string and 0 are falsy.\<close>

definition or_null_string :: "string option \<Rightarrow> string option" where
  "or_null_string x = (case x of None \<Rightarrow> None | Some s \<Rightarrow> if s = [] then None else Some s)"

definition or_null_number :: "nat option \<Rightarrow> nat option" where
  "or_null_number x = (case x of None \<Rightarrow> None | Some n \<Rightarrow> if n = 0 then None else Some n)"

subsection \<open>Queries\<close>

text \<open>
  The queries the properties below read. The remaining queries (the photo, comment and
  notification listings) only filter and sort copies of the values and write nothing.
\<close>

definition mem_getUser :: "nat \<Rightarrow> MemStorage \<Rightarrow> nat User option" where
  "mem_getUser i s = users s i"

definition mem_isFollowing :: "nat \<Rightarrow> nat \<Rightarrow> MemStorage \<Rightarrow> bool" where
  "mem_isFollowing a b s =
     list_ex (\<lambda>follow. followerId follow = a \<and> followingId follow = b) (js_values (follows s))"

definition mem_getFollowers :: "nat \<Rightarrow> MemStorage \<Rightarrow> nat User list" where
  "mem_getFollowers userId s =
     (let followerIds = map followerId
            (filter (\<lambda>follow. followingId follow = userId) (js_values (follows s)))
      in List.map_filter (\<lambda>i. users s i) followerIds)"

definition mem_getLikedUsers :: "nat \<Rightarrow> MemStorage \<Rightarrow> nat User list" where
  "mem_getLikedUsers photoId s =
     (let userIds = map like_userId
            (filter (\<lambda>like. like_photoId like = photoId) (js_values (likes s)))
      in List.map_filter (\<lambda>i. users s i) userIds)"

subsection \<open>Mutators\<close>

definition mem_createUser :: "InsertUser \<Rightarrow> MemStorage \<Rightarrow> nat User outcome \<times> MemStorage" where
  "mem_createUser insertUser s =
     (let i = currentId s;
          user = \<lparr>user_id = i, username = insert_username insertUser,
                  password = insert_password insertUser, displayName = None,
                  bio = None, avatarUrl = None, followerCount = 0\<rparr>
      in (Returned user, s\<lparr>currentId := i + 1, users := (users s)(i \<mapsto> user)\<rparr>))"

definition mem_updateUserProfile ::
  "nat \<Rightarrow> string \<Rightarrow> string \<Rightarrow> string \<Rightarrow> MemStorage \<Rightarrow> nat User outcome \<times> MemStorage" where
  "mem_updateUserProfile userId b a d s =
     (case users s userId of
        None \<Rightarrow> (Raised (Error ''User not found''), s)
      | Some user \<Rightarrow>
          (let updatedUser = user\<lparr>bio := or_string b (bio user),
                                  avatarUrl := or_string a (avatarUrl user),
                                  displayName := or_string d (displayName user)\<rparr>
           in (Returned updatedUser, s\<lparr>users := (users s)(userId \<mapsto> updatedUser)\<rparr>)))"

definition mem_createPhoto ::
  "nat \<Rightarrow> string \<Rightarrow> string option \<Rightarrow> nat \<Rightarrow> MemStorage \<Rightarrow> nat Photo outcome \<times> MemStorage" where
  "mem_createPhoto userId url cap now s =
     (let i = currentPhotoId s;
          photo = \<lparr>photo_id = i, photo_userId = userId, imageUrl = url,
                   caption = or_null_string cap, photo_likeCount = 0, commentCount = 0,
                   photo_createdAt = now\<rparr>
      in (Returned photo, s\<lparr>currentPhotoId := i + 1, photos := (photos s)(i \<mapsto> photo)\<rparr>))"

text \<open>
  \<^verbatim>\<open>(photo.likeCount || 0) + 1\<close>: on a number \<^verbatim>\<open>c || 0\<close> is \<open>c\<close> (0 is the only falsy
  integer), so the new count is \<open>c + 1\<close>. The user id is not read.
\<close>

definition mem_likePhoto :: "nat \<Rightarrow> nat \<Rightarrow> MemStorage \<Rightarrow> unit outcome \<times> MemStorage" where
  "mem_likePhoto userId photoId s =
     (case photos s photoId of
        Some photo \<Rightarrow>
          (Returned (),
           s\<lparr>photos := (photos s)(photoId \<mapsto> photo\<lparr>photo_likeCount := photo_likeCount photo + 1\<rparr>)\<rparr>)
      | None \<Rightarrow> (Returned (), s))"

definition mem_unlikePhoto :: "nat \<Rightarrow> nat \<Rightarrow> MemStorage \<Rightarrow> unit outcome \<times> MemStorage" where
  "mem_unlikePhoto userId photoId s =
     (case photos s photoId of
        Some photo \<Rightarrow>
          if photo_likeCount photo \<noteq> 0 \<and> photo_likeCount photo > 0
          then (Returned (),
                s\<lparr>photos := (photos s)(photoId \<mapsto> photo\<lparr>photo_likeCount := photo_likeCount photo - 1\<rparr>)\<rparr>)
          else (Returned (), s)
      | None \<Rightarrow> (Returned (), s))"

definition mem_followUser :: "nat \<Rightarrow> nat \<Rightarrow> MemStorage \<Rightarrow> unit outcome \<times> MemStorage" where
  "mem_followUser a b s =
     (if mem_isFollowing a b s then (Returned (), s)
      else
        (let i = currentFollowId s;
             follow = \<lparr>follow_id = i, followerId = a, followingId = b\<rparr>;
             s1 = s\<lparr>currentFollowId := i + 1, follows := js_set i follow (follows s)\<rparr>
         in case users s1 b of
              Some user \<Rightarrow>
                (Returned (),
                 s1\<lparr>users := (users s1)(b \<mapsto> user\<lparr>followerCount := followerCount user + 1\<rparr>)\<rparr>)
            | None \<Rightarrow> (Returned (), s1)))"

definition mem_unfollowUser :: "nat \<Rightarrow> nat \<Rightarrow> MemStorage \<Rightarrow> unit outcome \<times> MemStorage" where
  "mem_unfollowUser a b s =
     (case find (\<lambda>(_, follow). followerId follow = a \<and> followingId follow = b) (follows s) of
        None \<Rightarrow> (Returned (), s)
      | Some followToRemove \<Rightarrow>
          (let s1 = s\<lparr>follows := js_delete (fst followToRemove) (follows s)\<rparr>
           in case users s1 b of
                Some user \<Rightarrow>
                  if followerCount user \<noteq> 0 \<and> followerCount user > 0
                  then (Returned (),
                        s1\<lparr>users := (users s1)(b \<mapsto> user\<lparr>followerCount := followerCount user - 1\<rparr>)\<rparr>)
                  else (Returned (), s1)
              | None \<Rightarrow> (Returned (), s1)))"

definition mem_createComment ::
  "nat \<Rightarrow> nat \<Rightarrow> string \<Rightarrow> nat \<Rightarrow> MemStorage \<Rightarrow> nat Comment outcome \<times> MemStorage" where
  "mem_createComment userId photoId text now s =
     (let i = currentCommentId s;
          comment = \<lparr>comment_id = i, comment_userId = userId, comment_photoId = photoId,
                     content = text, comment_likeCount = 0, comment_createdAt = now\<rparr>;
          s1 = s\<lparr>currentCommentId := i + 1, comments := (comments s)(i \<mapsto> comment)\<rparr>
      in case photos s1 photoId of
           Some photo \<Rightarrow>
             (Returned comment,
              s1\<lparr>photos := (photos s1)(photoId \<mapsto> photo\<lparr>commentCount := commentCount photo + 1\<rparr>)\<rparr>)
         | None \<Rightarrow> (Returned comment, s1))"

definition mem_likeComment :: "nat \<Rightarrow> nat \<Rightarrow> MemStorage \<Rightarrow> unit outcome \<times> MemStorage" where
  "mem_likeComment userId commentId s =
     (case comments s commentId of
        Some comment \<Rightarrow>
          (Returned (),
           s\<lparr>comments := (comments s)(commentId \<mapsto> comment\<lparr>comment_likeCount := comment_likeCount comment + 1\<rparr>)\<rparr>)
      | None \<Rightarrow> (Returned (), s))"

definition mem_unlikeComment :: "nat \<Rightarrow> nat \<Rightarrow> MemStorage \<Rightarrow> unit outcome \<times> MemStorage" where
  "mem_unlikeComment userId commentId s =
     (case comments s commentId of
        Some comment \<Rightarrow>
          if comment_likeCount comment \<noteq> 0 \<and> comment_likeCount comment > 0
          then (Returned (),
                s\<lparr>comments := (comments s)(commentId \<mapsto> comment\<lparr>comment_likeCount := comment_likeCount comment - 1\<rparr>)\<rparr>)
          else (Returned (), s)
      | None \<Rightarrow> (Returned (), s))"

definition mem_createNotification ::
  "nat \<Rightarrow> nat \<Rightarrow> string \<Rightarrow> nat option \<Rightarrow> nat option \<Rightarrow> nat \<Rightarrow> MemStorage \<Rightarrow> unit outcome \<times> MemStorage" where
  "mem_createNotification userId actor ty photoId commentId now s =
     (let i = currentNotificationId s;
          notification = \<lparr>notification_id = i, notification_userId = userId, actorId = actor,
                          notification_type = ty, notification_photoId = or_null_number photoId,
                          notification_commentId = or_null_number commentId, read = False,
                          notification_createdAt = now\<rparr>
      in (Returned (),
          s\<lparr>currentNotificationId := i + 1, notifications := (notifications s)(i \<mapsto> notification)\<rparr>))"

definition mem_markNotificationAsRead :: "nat \<Rightarrow> MemStorage \<Rightarrow> unit outcome \<times> MemStorage" where
  "mem_markNotificationAsRead notificationId s =
     (case notifications s notificationId of
        Some notification \<Rightarrow>
          (Returned (),
           s\<lparr>notifications := (notifications s)(notificationId \<mapsto> notification\<lparr>read := True\<rparr>)\<rparr>)
      | None \<Rightarrow> (Returned (), s))"

definition mem_markAllNotificationsAsRead :: "nat \<Rightarrow> MemStorage \<Rightarrow> unit outcome \<times> MemStorage" where
  "mem_markAllNotificationsAsRead userId s =
     (Returned (),
      s\<lparr>notifications :=
          (\<lambda>i. map_option
                 (\<lambda>notification. if notification_userId notification = userId
                                  then notification\<lparr>read := True\<rparr> else notification)
                 (notifications s i))\<rparr>)"

subsection \<open>Sequences of calls\<close>

text \<open>
  The mutating methods of the storage interface. The queries leave the store as it
  is. A request that ends in an exception does not stop the server: the next call
  runs on the store the failed one left.
\<close>

datatype mem_op =
    CreateUser InsertUser
  | UpdateUserProfile nat string string string
  | CreatePhoto nat string "string option" nat
  | LikePhoto nat nat
  | UnlikePhoto nat nat
  | FollowUser nat nat
  | UnfollowUser nat nat
  | CreateComment nat nat string nat
  | LikeComment nat nat
  | UnlikeComment nat nat
  | CreateNotification nat nat string "nat option" "nat option" nat
  | MarkNotificationAsRead nat
  | MarkAllNotificationsAsRead nat

fun mem_step :: "mem_op \<Rightarrow> MemStorage \<Rightarrow> MemStorage" where
  "mem_step (CreateUser iu) s = snd (mem_createUser iu s)"
| "mem_step (UpdateUserProfile u b a d) s = snd (mem_updateUserProfile u b a d s)"
| "mem_step (CreatePhoto u url cap now) s = snd (mem_createPhoto u url cap now s)"
| "mem_step (LikePhoto u p) s = snd (mem_likePhoto u p s)"
| "mem_step (UnlikePhoto u p) s = snd (mem_unlikePhoto u p s)"
| "mem_step (FollowUser a b) s = snd (mem_followUser a b s)"
| "mem_step (UnfollowUser a b) s = snd (mem_unfollowUser a b s)"
| "mem_step (CreateComment u p text now) s = snd (mem_createComment u p text now s)"
| "mem_step (LikeComment u c) s = snd (mem_likeComment u c s)"
| "mem_step (UnlikeComment u c) s = snd (mem_unlikeComment u c s)"
| "mem_step (CreateNotification u a ty p c now) s = snd (mem_createNotification u a ty p c now s)"
| "mem_step (MarkNotificationAsRead n) s = snd (mem_markNotificationAsRead n s)"
| "mem_step (MarkAllNotificationsAsRead u) s = snd (mem_markAllNotificationsAsRead u s)"

fun mem_run :: "mem_op list \<Rightarrow> MemStorage \<Rightarrow> MemStorage" where
  "mem_run [] s = s"
| "mem_run (op # ops) s = mem_run ops (mem_step op s)"

section \<open>The relational store\<close>

text \<open>
  \<^verbatim>\<open>PostgresStorage\<close> talks to the database through a query builder, over the tables
  of the second schema. The tables \<^verbatim>\<open>users\<close>, \<^verbatim>\<open>photos\<close> and \<^verbatim>\<open>comments\<close> have the
  primary key \<open>id\<close>, so each is a partial function from the id to its row. The
  relationship tables \<^verbatim>\<open>likes\<close>, \<^verbatim>\<open>follows\<close> and \<^verbatim>\<open>commentLikes\<close> have a generated
  primary key that no method reads, two \<^verbatim>\<open>notNull\<close> foreign ids without a foreign-key
  or uniqueness constraint, and \<^verbatim>\<open>isDeleted\<close> with default \<^verbatim>\<open>false\<close>; each is a list of
  rows in insertion order, and an insert that names only the two ids stores
  \<open>isDeleted = false\<close>. No table has a check constraint.

  The methods modelled are the ones that write the relationship tables and the
  counters: \<^verbatim>\<open>likePhoto\<close>, \<^verbatim>\<open>followUser\<close>, \<^verbatim>\<open>unfollowUser\<close>, \<^verbatim>\<open>likeComment\<close>,
  \<^verbatim>\<open>unlikeComment\<close>, and the query \<^verbatim>\<open>isFollowing\<close>. The class declares no
  \<^verbatim>\<open>unlikePhoto\<close>. The creating methods take their ids from the database and are
  not needed: the properties below are stated for an arbitrary content of the keyed
  tables.
\<close>

record 'k likes_row =
  likes_userId :: 'k
  likes_photoId :: 'k
  likes_isDeleted :: bool

record 'k follows_row =
  follows_followerId :: 'k
  follows_followingId :: 'k
  follows_isDeleted :: bool

record 'k commentLikes_row =
  commentLikes_userId :: 'k
  commentLikes_commentId :: 'k
  commentLikes_isDeleted :: bool

record 'k Database =
  schema_users :: "'k \<rightharpoonup> 'k User"
  schema_photos :: "'k \<rightharpoonup> 'k Photo"
  schema_comments :: "'k \<rightharpoonup> 'k Comment"
  schema_follows :: "'k follows_row list"
  schema_likes :: "'k likes_row list"
  schema_commentLikes :: "'k commentLikes_row list"

text \<open>The query builder: \<^verbatim>\<open>select().from(t).where(c)\<close>, \<^verbatim>\<open>update(t).set(f).where(c)\<close>,
  \<^verbatim>\<open>delete(t).where(c)\<close> on a relationship table, and \<^verbatim>\<open>update(t).set(f).where(eq(t.id, i))\<close>
  on a keyed table.\<close>

definition select_where :: "('r \<Rightarrow> bool) \<Rightarrow> 'r list \<Rightarrow> 'r list" where
  "select_where c t = filter c t"

definition update_where :: "('r \<Rightarrow> 'r) \<Rightarrow> ('r \<Rightarrow> bool) \<Rightarrow> 'r list \<Rightarrow> 'r list" where
  "update_where f c t = map (\<lambda>r. if c r then f r else r) t"

definition delete_where :: "('r \<Rightarrow> bool) \<Rightarrow> 'r list \<Rightarrow> 'r list" where
  "delete_where c t = filter (\<lambda>r. \<not> c r) t"

definition update_id :: "('r \<Rightarrow> 'r) \<Rightarrow> 'k \<Rightarrow> ('k \<rightharpoonup> 'r) \<Rightarrow> ('k \<rightharpoonup> 'r)" where
  "update_id f i t = (case t i of None \<Rightarrow> t | Some r \<Rightarrow> t(i \<mapsto> f r))"

text \<open>
  A counter column is a 32-bit integer. The new value is computed in JavaScript
  (exactly, far below \<open>2\<^sup>5\<^sup>3\<close>) and sent as a parameter of the update; the database
  rejects the statement when the value is outside the range of the column.
\<close>

definition int4 :: "int \<Rightarrow> bool" where
  "int4 v \<longleftrightarrow> - 2147483648 \<le> v \<and> v \<le> 2147483647"

definition pg_isFollowing :: "'k \<Rightarrow> 'k \<Rightarrow> 'k Database \<Rightarrow> bool" where
  "pg_isFollowing a b db =
     (length (select_where
        (\<lambda>r. follows_followerId r = a \<and> follows_followingId r = b \<and> follows_isDeleted r = False)
        (schema_follows db)) > 0)"

text \<open>
  \<^verbatim>\<open>likePhoto\<close> reads the rows of the pair twice and the photo once, then takes one of
  three branches. In each branch the relationship table is written first; the argument
  \<^verbatim>\<open>photo.likeCount + 1\<close> of the counter update is evaluated after that write, and
  throws a \<open>TypeError\<close> when the select found no photo; the update itself is rejected
  when the new value does not fit the column. Either way the row written before stays.
\<close>

definition pg_likePhoto :: "'k \<Rightarrow> 'k \<Rightarrow> 'k Database \<Rightarrow> unit outcome \<times> 'k Database" where
  "pg_likePhoto userId photoId db =
     (let hasLiked = length (select_where
            (\<lambda>r. likes_userId r = userId \<and> likes_photoId r = photoId) (schema_likes db));
          hasDeleted = length (select_where
            (\<lambda>r. likes_userId r = userId \<and> likes_photoId r = photoId \<and> likes_isDeleted r = True)
            (schema_likes db));
          photo = schema_photos db photoId
      in if hasLiked = 0 then
           (let db1 = db\<lparr>schema_likes := schema_likes db @
                        [\<lparr>likes_userId = userId, likes_photoId = photoId, likes_isDeleted = False\<rparr>]\<rparr>
            in case photo of
                 None \<Rightarrow> (Raised TypeError, db1)
               | Some ph \<Rightarrow>
                   if int4 (photo_likeCount ph + 1)
                   then (Returned (),
                         db1\<lparr>schema_photos :=
                               update_id (\<lambda>r. r\<lparr>photo_likeCount := photo_likeCount ph + 1\<rparr>) photoId
                                 (schema_photos db1)\<rparr>)
                   else (Raised DatabaseError, db1))
         else if hasLiked \<noteq> 0 \<and> hasDeleted \<noteq> 0 then
           (let db1 = db\<lparr>schema_likes := update_where (\<lambda>r. r\<lparr>likes_isDeleted := False\<rparr>)
                        (\<lambda>r. likes_userId r = userId \<and> likes_photoId r = photoId \<and> likes_isDeleted r = True)
                        (schema_likes db)\<rparr>
            in case photo of
                 None \<Rightarrow> (Raised TypeError, db1)
               | Some ph \<Rightarrow>
                   if int4 (photo_likeCount ph + 1)
                   then (Returned (),
                         db1\<lparr>schema_photos :=
                               update_id (\<lambda>r. r\<lparr>photo_likeCount := photo_likeCount ph + 1\<rparr>) photoId
                                 (schema_photos db1)\<rparr>)
                   else (Raised DatabaseError, db1))
         else
           (let db1 = db\<lparr>schema_likes := update_where (\<lambda>r. r\<lparr>likes_isDeleted := True\<rparr>)
                        (\<lambda>r. likes_userId r = userId \<and> likes_photoId r = photoId \<and> likes_isDeleted r = False)
                        (schema_likes db)\<rparr>
            in case photo of
                 None \<Rightarrow> (Raised TypeError, db1)
               | Some ph \<Rightarrow>
                   if int4 (photo_likeCount ph - 1)
                   then (Returned (),
                         db1\<lparr>schema_photos :=
                               update_id (\<lambda>r. r\<lparr>photo_likeCount := photo_likeCount ph - 1\<rparr>) photoId
                                 (schema_photos db1)\<rparr>)
                   else (Raised DatabaseError, db1)))"

text \<open>
  \<^verbatim>\<open>followUser\<close> does not look at \<open>isDeleted\<close>: when the pair has a row it adds one to
  the counter and clears the flag of every row of the pair. With a row, the counter
  update comes first, so a missing user or a rejected value ends the call before
  anything is written; without one, the insert comes first.
\<close>

definition pg_followUser :: "'k \<Rightarrow> 'k \<Rightarrow> 'k Database \<Rightarrow> unit outcome \<times> 'k Database" where
  "pg_followUser a b db =
     (let isFollower = length (select_where
            (\<lambda>r. follows_followerId r = a \<and> follows_followingId r = b) (schema_follows db));
          user = schema_users db b
      in if isFollower \<noteq> 0 then
           (case user of
              None \<Rightarrow> (Raised TypeError, db)
            | Some u \<Rightarrow>
                if int4 (followerCount u + 1)
                then (let db1 = db\<lparr>schema_users :=
                                  update_id (\<lambda>r. r\<lparr>followerCount := followerCount u + 1\<rparr>) b
                                    (schema_users db)\<rparr>;
                          db2 = db1\<lparr>schema_follows := update_where (\<lambda>r. r\<lparr>follows_isDeleted := False\<rparr>)
                                  (\<lambda>r. follows_followerId r = a \<and> follows_followingId r = b)
                                  (schema_follows db1)\<rparr>
                      in (Returned (), db2))
                else (Raised DatabaseError, db))
         else
           (let db1 = db\<lparr>schema_follows := schema_follows db @
                        [\<lparr>follows_followerId = a, follows_followingId = b, follows_isDeleted = False\<rparr>]\<rparr>
            in case user of
                 None \<Rightarrow> (Raised TypeError, db1)
               | Some u \<Rightarrow>
                   if int4 (followerCount u + 1)
                   then (Returned (),
                         db1\<lparr>schema_users :=
                               update_id (\<lambda>r. r\<lparr>followerCount := followerCount u + 1\<rparr>) b
                                 (schema_users db1)\<rparr>)
                   else (Raised DatabaseError, db1)))"

definition pg_unfollowUser :: "'k \<Rightarrow> 'k \<Rightarrow> 'k Database \<Rightarrow> unit outcome \<times> 'k Database" where
  "pg_unfollowUser a b db =
     (case schema_users db b of
        None \<Rightarrow> (Raised TypeError, db)
      | Some u \<Rightarrow>
          if int4 (followerCount u - 1)
          then (let db1 = db\<lparr>schema_users :=
                            update_id (\<lambda>r. r\<lparr>followerCount := followerCount u - 1\<rparr>) b
                              (schema_users db)\<rparr>;
                    db2 = db1\<lparr>schema_follows := update_where (\<lambda>r. r\<lparr>follows_isDeleted := True\<rparr>)
                            (\<lambda>r. follows_followerId r = a \<and> follows_followingId r = b)
                            (schema_follows db1)\<rparr>
                in (Returned (), db2))
          else (Raised DatabaseError, db))"

definition pg_likeComment :: "'k \<Rightarrow> 'k \<Rightarrow> 'k Database \<Rightarrow> unit outcome \<times> 'k Database" where
  "pg_likeComment userId commentId db =
     (let hasLiked = length (select_where
            (\<lambda>r. commentLikes_userId r = userId \<and> commentLikes_commentId r = commentId)
            (schema_commentLikes db));
          hasDeleted = length (select_where
            (\<lambda>r. commentLikes_userId r = userId \<and> commentLikes_commentId r = commentId
                  \<and> commentLikes_isDeleted r = True)
            (schema_commentLikes db));
          comment = schema_comments db commentId
      in if hasLiked = 0 then
           (let db1 = db\<lparr>schema_commentLikes := schema_commentLikes db @
                        [\<lparr>commentLikes_userId = userId, commentLikes_commentId = commentId,
                          commentLikes_isDeleted = False\<rparr>]\<rparr>
            in case comment of
                 None \<Rightarrow> (Raised TypeError, db1)
               | Some c \<Rightarrow>
                   if int4 (comment_likeCount c + 1)
                   then (Returned (),
                         db1\<lparr>schema_comments :=
                               update_id (\<lambda>r. r\<lparr>comment_likeCount := comment_likeCount c + 1\<rparr>) commentId
                                 (schema_comments db1)\<rparr>)
                   else (Raised DatabaseError, db1))
         else if hasLiked \<noteq> 0 \<and> hasDeleted \<noteq> 0 then
           (let db1 = db\<lparr>schema_commentLikes := update_where (\<lambda>r. r\<lparr>commentLikes_isDeleted := False\<rparr>)
                        (\<lambda>r. commentLikes_userId r = userId \<and> commentLikes_commentId r = commentId
                              \<and> commentLikes_isDeleted r = True)
                        (schema_commentLikes db)\<rparr>
            in case comment of
                 None \<Rightarrow> (Raised TypeError, db1)
               | Some c \<Rightarrow>
                   if int4 (comment_likeCount c + 1)
                   then (Returned (),
                         db1\<lparr>schema_comments :=
                               update_id (\<lambda>r. r\<lparr>comment_likeCount := comment_likeCount c + 1\<rparr>) commentId
                                 (schema_comments db1)\<rparr>)
                   else (Raised DatabaseError, db1))
         else
           (let db1 = db\<lparr>schema_commentLikes := update_where (\<lambda>r. r\<lparr>commentLikes_isDeleted := True\<rparr>)
                        (\<lambda>r. commentLikes_userId r = userId \<and> commentLikes_commentId r = commentId
                              \<and> commentLikes_isDeleted r = False)
                        (schema_commentLikes db)\<rparr>
            in case comment of
                 None \<Rightarrow> (Raised TypeError, db1)
               | Some c \<Rightarrow>
                   if int4 (comment_likeCount c - 1)
                   then (Returned (),
                         db1\<lparr>schema_comments :=
                               update_id (\<lambda>r. r\<lparr>comment_likeCount := comment_likeCount c - 1\<rparr>) commentId
                                 (schema_comments db1)\<rparr>)
                   else (Raised DatabaseError, db1)))"

text \<open>
  \<^verbatim>\<open>unlikeComment\<close> deletes the rows of the pair and then writes
  \<^verbatim>\<open>schema.comments.likeCount - 1\<close> into the counter: a column object minus one, which
  JavaScript evaluates to \<^verbatim>\<open>NaN\<close>. The integer column does not take \<^verbatim>\<open>NaN\<close>, so the
  second statement is rejected after the first has deleted the rows.
\<close>

definition pg_unlikeComment :: "'k \<Rightarrow> 'k \<Rightarrow> 'k Database \<Rightarrow> unit outcome \<times> 'k Database" where
  "pg_unlikeComment userId commentId db =
     (let db1 = db\<lparr>schema_commentLikes := delete_where
                  (\<lambda>r. commentLikes_userId r = userId \<and> commentLikes_commentId r = commentId)
                  (schema_commentLikes db)\<rparr>
      in (Raised DatabaseError, db1))"

section \<open>Notions used to state the properties\<close>

subsection \<open>Counting rows\<close>

definition likes_of_pair :: "'k \<Rightarrow> 'k \<Rightarrow> 'k likes_row list \<Rightarrow> nat" where
  "likes_of_pair u p t = length (filter (\<lambda>r. likes_userId r = u \<and> likes_photoId r = p) t)"

definition deleted_likes_of_pair :: "'k \<Rightarrow> 'k \<Rightarrow> 'k likes_row list \<Rightarrow> nat" where
  "deleted_likes_of_pair u p t =
     length (filter (\<lambda>r. likes_userId r = u \<and> likes_photoId r = p \<and> likes_isDeleted r) t)"

definition active_likes :: "'k \<Rightarrow> 'k likes_row list \<Rightarrow> nat" where
  "active_likes p t = length (filter (\<lambda>r. likes_photoId r = p \<and> \<not> likes_isDeleted r) t)"

definition commentLikes_of_pair :: "'k \<Rightarrow> 'k \<Rightarrow> 'k commentLikes_row list \<Rightarrow> nat" where
  "commentLikes_of_pair u c t =
     length (filter (\<lambda>r. commentLikes_userId r = u \<and> commentLikes_commentId r = c) t)"

definition deleted_commentLikes_of_pair :: "'k \<Rightarrow> 'k \<Rightarrow> 'k commentLikes_row list \<Rightarrow> nat" where
  "deleted_commentLikes_of_pair u c t =
     length (filter (\<lambda>r. commentLikes_userId r = u \<and> commentLikes_commentId r = c
                          \<and> commentLikes_isDeleted r) t)"

definition active_commentLikes :: "'k \<Rightarrow> 'k commentLikes_row list \<Rightarrow> nat" where
  "active_commentLikes c t =
     length (filter (\<lambda>r. commentLikes_commentId r = c \<and> \<not> commentLikes_isDeleted r) t)"

definition follows_of_pair :: "'k \<Rightarrow> 'k \<Rightarrow> 'k follows_row list \<Rightarrow> nat" where
  "follows_of_pair a b t =
     length (filter (\<lambda>r. follows_followerId r = a \<and> follows_followingId r = b) t)"

definition active_follows_of_pair :: "'k \<Rightarrow> 'k \<Rightarrow> 'k follows_row list \<Rightarrow> nat" where
  "active_follows_of_pair a b t =
     length (filter (\<lambda>r. follows_followerId r = a \<and> follows_followingId r = b
                          \<and> \<not> follows_isDeleted r) t)"

definition mem_likes_of :: "nat \<Rightarrow> (nat, Like) js_map \<Rightarrow> nat" where
  "mem_likes_of p m = length (filter (\<lambda>like. like_photoId like = p) (js_values m))"

definition mem_follows_of_pair :: "nat \<Rightarrow> nat \<Rightarrow> (nat, Follow) js_map \<Rightarrow> nat" where
  "mem_follows_of_pair a b m =
     length (filter (\<lambda>follow. followerId follow = a \<and> followingId follow = b) (js_values m))"

definition mem_follows_to :: "nat \<Rightarrow> (nat, Follow) js_map \<Rightarrow> nat" where
  "mem_follows_to b m = length (filter (\<lambda>follow. followingId follow = b) (js_values m))"

subsection \<open>The state of a pair\<close>

text \<open>
  The state of an (actor, target) pair, read off the rows the way the toggle reads
  them: no row of the pair, some row of the pair flagged deleted, or rows and none of
  them flagged.
\<close>

datatype rel_state = ABSENT | ACTIVE | INACTIVE

definition like_state :: "'k \<Rightarrow> 'k \<Rightarrow> 'k Database \<Rightarrow> rel_state" where
  "like_state u p db =
     (if likes_of_pair u p (schema_likes db) = 0 then ABSENT
      else if deleted_likes_of_pair u p (schema_likes db) \<noteq> 0 then INACTIVE else ACTIVE)"

definition commentLike_state :: "'k \<Rightarrow> 'k \<Rightarrow> 'k Database \<Rightarrow> rel_state" where
  "commentLike_state u c db =
     (if commentLikes_of_pair u c (schema_commentLikes db) = 0 then ABSENT
      else if deleted_commentLikes_of_pair u c (schema_commentLikes db) \<noteq> 0 then INACTIVE
      else ACTIVE)"


text \<open>
  The transition table of the specification (section 4.1), written down from its
  words: the state a toggle leads to, and the counter delta it applies.
\<close>

fun toggle_next :: "rel_state \<Rightarrow> rel_state" where
  "toggle_next ABSENT = ACTIVE"
| "toggle_next ACTIVE = INACTIVE"
| "toggle_next INACTIVE = ACTIVE"

fun toggle_delta :: "rel_state \<Rightarrow> int" where
  "toggle_delta ABSENT = 1"
| "toggle_delta ACTIVE = - 1"
| "toggle_delta INACTIVE = 1"

subsection \<open>The counter invariant of the like tables\<close>

text \<open>
  Every stored photo's and comment's \<open>likeCount\<close> is the number of its rows with
  \<open>isDeleted = false\<close>, and no pair has two rows.
\<close>

definition like_counters_ok :: "'k Database \<Rightarrow> bool" where
  "like_counters_ok db \<longleftrightarrow>
     (\<forall>p ph. schema_photos db p = Some ph \<longrightarrow>
        photo_likeCount ph = int (active_likes p (schema_likes db))) \<and>
     (\<forall>c cm. schema_comments db c = Some cm \<longrightarrow>
        comment_likeCount cm = int (active_commentLikes c (schema_commentLikes db))) \<and>
     (\<forall>u p. likes_of_pair u p (schema_likes db) \<le> 1) \<and>
     (\<forall>u c. commentLikes_of_pair u c (schema_commentLikes db) \<le> 1)"

subsection \<open>Sequences of calls on the relational store\<close>

datatype 'k pg_op =
    PgLikePhoto 'k 'k
  | PgFollowUser 'k 'k
  | PgUnfollowUser 'k 'k
  | PgLikeComment 'k 'k
  | PgUnlikeComment 'k 'k

fun pg_step :: "'k pg_op \<Rightarrow> 'k Database \<Rightarrow> 'k Database" where
  "pg_step (PgLikePhoto u p) db = snd (pg_likePhoto u p db)"
| "pg_step (PgFollowUser a b) db = snd (pg_followUser a b db)"
| "pg_step (PgUnfollowUser a b) db = snd (pg_unfollowUser a b db)"
| "pg_step (PgLikeComment u c) db = snd (pg_likeComment u c db)"
| "pg_step (PgUnlikeComment u c) db = snd (pg_unlikeComment u c db)"

fun pg_run :: "'k pg_op list \<Rightarrow> 'k Database \<Rightarrow> 'k Database" where
  "pg_run [] db = db"
| "pg_run (op # ops) db = pg_run ops (pg_step op db)"

fun is_like_toggle :: "'k pg_op \<Rightarrow> bool" where
  "is_like_toggle (PgLikePhoto u p) = True"
| "is_like_toggle (PgLikeComment u c) = True"
| "is_like_toggle _ = False"

fun is_soft_op :: "'k pg_op \<Rightarrow> bool" where
  "is_soft_op (PgUnlikeComment u c) = False"
| "is_soft_op _ = True"

subsection \<open>What the two toggles write\<close>

text \<open>
  The relationship table after a toggle as a function of the table before it. That
  \<^verbatim>\<open>likePhoto\<close> and \<^verbatim>\<open>likeComment\<close> write exactly this is proved below
  (\<open>pg_likePhoto_likes\<close>, \<open>pg_likeComment_commentLikes\<close>).
\<close>

definition likes_after :: "'k \<Rightarrow> 'k \<Rightarrow> 'k likes_row list \<Rightarrow> 'k likes_row list" where
  "likes_after u p t =
     (if likes_of_pair u p t = 0
      then t @ [\<lparr>likes_userId = u, likes_photoId = p, likes_isDeleted = False\<rparr>]
      else if deleted_likes_of_pair u p t \<noteq> 0
      then update_where (\<lambda>r. r\<lparr>likes_isDeleted := False\<rparr>)
             (\<lambda>r. likes_userId r = u \<and> likes_photoId r = p \<and> likes_isDeleted r) t
      else update_where (\<lambda>r. r\<lparr>likes_isDeleted := True\<rparr>)
             (\<lambda>r. likes_userId r = u \<and> likes_photoId r = p \<and> \<not> likes_isDeleted r) t)"

definition commentLikes_after ::
  "'k \<Rightarrow> 'k \<Rightarrow> 'k commentLikes_row list \<Rightarrow> 'k commentLikes_row list" where
  "commentLikes_after u c t =
     (if commentLikes_of_pair u c t = 0
      then t @ [\<lparr>commentLikes_userId = u, commentLikes_commentId = c, commentLikes_isDeleted = False\<rparr>]
      else if deleted_commentLikes_of_pair u c t \<noteq> 0
      then update_where (\<lambda>r. r\<lparr>commentLikes_isDeleted := False\<rparr>)
             (\<lambda>r. commentLikes_userId r = u \<and> commentLikes_commentId r = c \<and> commentLikes_isDeleted r) t
      else update_where (\<lambda>r. r\<lparr>commentLikes_isDeleted := True\<rparr>)
             (\<lambda>r. commentLikes_userId r = u \<and> commentLikes_commentId r = c \<and> \<not> commentLikes_isDeleted r) t)"

subsection \<open>A small populated store\<close>

text \<open>
  Two users, one photo of the first user and one comment of the second on it, created
  through the in-memory interface; and the relational store that holds the same
  users, photo and comment and no relationship row.
\<close>

definition alice :: InsertUser where
  "alice = \<lparr>insert_username = ''alice'', insert_password = ''a''\<rparr>"

definition bob :: InsertUser where
  "bob = \<lparr>insert_username = ''bob'', insert_password = ''b''\<rparr>"

definition mem_example :: MemStorage where
  "mem_example =
     mem_run [CreateUser alice, CreateUser bob, CreatePhoto 1 ''a.png'' None 10,
              CreateComment 2 1 ''nice'' 11] MemStorage_new"

definition pg_example :: "nat Database" where
  "pg_example =
     \<lparr>schema_users = users mem_example, schema_photos = photos mem_example,
      schema_comments = comments mem_example,
      schema_follows = [], schema_likes = [], schema_commentLikes = []\<rparr>"

subsection \<open>Keys of the relationship rows\<close>

text \<open>The actor and the target of a row: what stays when only \<open>isDeleted\<close> changes.\<close>

definition likes_key :: "'k likes_row \<Rightarrow> 'k \<times> 'k" where
  "likes_key r = (likes_userId r, likes_photoId r)"

definition follows_key :: "'k follows_row \<Rightarrow> 'k \<times> 'k" where
  "follows_key r = (follows_followerId r, follows_followingId r)"

definition commentLikes_key :: "'k commentLikes_row \<Rightarrow> 'k \<times> 'k" where
  "commentLikes_key r = (commentLikes_userId r, commentLikes_commentId r)"

text \<open>
  The keys of a \<^verbatim>\<open>Map\<close> are pairwise different, and \<^verbatim>\<open>currentFollowId\<close> is above
  every key handed out so far.
\<close>

definition follows_wf :: "MemStorage \<Rightarrow> bool" where
  "follows_wf s \<longleftrightarrow>
     distinct (map fst (follows s)) \<and> list_all (\<lambda>(k, _). k < currentFollowId s) (follows s)"

fun is_unfollow :: "mem_op \<Rightarrow> bool" where
  "is_unfollow (UnfollowUser a b) = True"
| "is_unfollow _ = False"

subsection \<open>Follow calls issued to both stores\<close>

datatype follow_call = CallFollow nat nat | CallUnfollow nat nat

fun mem_call :: "follow_call \<Rightarrow> mem_op" where
  "mem_call (CallFollow a b) = FollowUser a b"
| "mem_call (CallUnfollow a b) = UnfollowUser a b"

fun pg_call :: "follow_call \<Rightarrow> nat pg_op" where
  "pg_call (CallFollow a b) = PgFollowUser a b"
| "pg_call (CallUnfollow a b) = PgUnfollowUser a b"

text \<open>
  The calls the client issues: it follows an existing user it does not follow yet and
  unfollows an existing user it follows.
\<close>

fun proper_calls :: "follow_call list \<Rightarrow> MemStorage \<Rightarrow> bool" where
  "proper_calls [] s = True"
| "proper_calls (CallFollow a b # cs) s =
     (users s b \<noteq> None \<and> \<not> mem_isFollowing a b s \<and>
      proper_calls cs (mem_step (FollowUser a b) s))"
| "proper_calls (CallUnfollow a b # cs) s =
     (users s b \<noteq> None \<and> mem_isFollowing a b s \<and>
      proper_calls cs (mem_step (UnfollowUser a b) s))"

text \<open>
  The two stores agree: they hold the same users, photos and comments (with their
  counters), and the same pairs are following.
\<close>

definition backends_agree :: "MemStorage \<Rightarrow> nat Database \<Rightarrow> bool" where
  "backends_agree s db \<longleftrightarrow>
     users s = schema_users db \<and> photos s = schema_photos db \<and> comments s = schema_comments db \<and>
     (\<forall>a b. mem_isFollowing a b s = pg_isFollowing a b db)"

text \<open>
  The in-memory follows are well formed, no pair has two entries, and every stored
  user's \<open>followerCount\<close> is at least the number of entries that point to the user.
\<close>

definition mem_follow_inv :: "MemStorage \<Rightarrow> bool" where
  "mem_follow_inv s \<longleftrightarrow>
     follows_wf s \<and>
     (\<forall>a b. mem_follows_of_pair a b (follows s) \<le> 1) \<and>
     (\<forall>b u. users s b = Some u \<longrightarrow> int (mem_follows_to b (follows s)) \<le> followerCount u)"

text \<open>
  Room in the 32-bit column: every stored user's \<open>followerCount\<close> can still grow by
  \<open>n\<close> without passing the largest value the column takes.
\<close>

definition followers_fit :: "nat \<Rightarrow> MemStorage \<Rightarrow> bool" where
  "followers_fit n s \<longleftrightarrow>
     (\<forall>b u. users s b = Some u \<longrightarrow> followerCount u + int n \<le> 2147483647)"

text \<open>No counter of the in-memory store is below zero.\<close>

definition mem_counters_nonneg :: "MemStorage \<Rightarrow> bool" where
  "mem_counters_nonneg s \<longleftrightarrow>
     (\<forall>i u. users s i = Some u \<longrightarrow> 0 \<le> followerCount u) \<and>
     (\<forall>i p. photos s i = Some p \<longrightarrow> 0 \<le> photo_likeCount p \<and> 0 \<le> commentCount p) \<and>
     (\<forall>i c. comments s i = Some c \<longrightarrow> 0 \<le> comment_likeCount c)"

text \<open>
  The counter invariant of the in-memory follows: every stored user's
  \<open>followerCount\<close> is the number of follow entries that point to the user.
\<close>

definition follower_counters_ok :: "MemStorage \<Rightarrow> bool" where
  "follower_counters_ok s \<longleftrightarrow>
     follows_wf s \<and>
     (\<forall>b u. users s b = Some u \<longrightarrow> followerCount u = int (mem_follows_to b (follows s)))"

fun is_follow_op :: "mem_op \<Rightarrow> bool" where
  "is_follow_op (FollowUser a b) = True"
| "is_follow_op (UnfollowUser a b) = True"
| "is_follow_op _ = False"

section \<open>Concurrent likePhoto calls\<close>

text \<open>
  JavaScript runs a call until it reaches an \<^verbatim>\<open>await\<close>; there the call is suspended
  until the database has executed the awaited statement, and other calls run in
  between. \<^verbatim>\<open>PostgresStorage.likePhoto\<close> awaits five statements, one after the other:
  the select of the rows of the pair, the select of its deleted rows, the select of
  the photo, the write to \<^verbatim>\<open>likes\<close> and the write of the counter. A call in progress
  is its arguments, the statement it issues next, and the values its local constants
  \<^verbatim>\<open>hasLiked\<close>, \<^verbatim>\<open>hasDeleted\<close> and \<^verbatim>\<open>photo\<close> hold so far.
\<close>

datatype like_pc =
    SelectLiked | SelectDeleted | SelectPhoto | WriteLike | WriteCount
  | Finished "unit outcome"

record 'k likePhoto_call =
  call_userId :: 'k
  call_photoId :: 'k
  call_pc :: like_pc
  call_hasLiked :: nat
  call_hasDeleted :: nat
  call_photo :: "'k Photo option"

definition likePhoto_start :: "'k \<Rightarrow> 'k \<Rightarrow> 'k likePhoto_call" where
  "likePhoto_start userId photoId =
     \<lparr>call_userId = userId, call_photoId = photoId, call_pc = SelectLiked,
      call_hasLiked = 0, call_hasDeleted = 0, call_photo = None\<rparr>"

text \<open>
  One step of a call: the database executes the statement the call is waiting for,
  and the call runs on to its next \<^verbatim>\<open>await\<close> (or to its end). The branch taken by the
  two writes depends on the local constants only, that is, on what the selects saw
  when they ran. The argument \<^verbatim>\<open>photo.likeCount + 1\<close> of the counter update is computed
  from the photo the third select returned.
\<close>

definition likePhoto_resume ::
  "'k likePhoto_call \<Rightarrow> 'k Database \<Rightarrow> 'k likePhoto_call \<times> 'k Database" where
  "likePhoto_resume c db =
     (let userId = call_userId c; photoId = call_photoId c;
          hasLiked = call_hasLiked c; hasDeleted = call_hasDeleted c
      in case call_pc c of
           SelectLiked \<Rightarrow>
             (c\<lparr>call_hasLiked := length (select_where
                   (\<lambda>r. likes_userId r = userId \<and> likes_photoId r = photoId) (schema_likes db)),
                call_pc := SelectDeleted\<rparr>, db)
         | SelectDeleted \<Rightarrow>
             (c\<lparr>call_hasDeleted := length (select_where
                   (\<lambda>r. likes_userId r = userId \<and> likes_photoId r = photoId \<and> likes_isDeleted r = True)
                   (schema_likes db)),
                call_pc := SelectPhoto\<rparr>, db)
         | SelectPhoto \<Rightarrow>
             (c\<lparr>call_photo := schema_photos db photoId, call_pc := WriteLike\<rparr>, db)
         | WriteLike \<Rightarrow>
             (c\<lparr>call_pc := WriteCount\<rparr>,
              if hasLiked = 0 then
                db\<lparr>schema_likes := schema_likes db @
                     [\<lparr>likes_userId = userId, likes_photoId = photoId, likes_isDeleted = False\<rparr>]\<rparr>
              else if hasLiked \<noteq> 0 \<and> hasDeleted \<noteq> 0 then
                db\<lparr>schema_likes := update_where (\<lambda>r. r\<lparr>likes_isDeleted := False\<rparr>)
                     (\<lambda>r. likes_userId r = userId \<and> likes_photoId r = photoId \<and> likes_isDeleted r = True)
                     (schema_likes db)\<rparr>
              else
                db\<lparr>schema_likes := update_where (\<lambda>r. r\<lparr>likes_isDeleted := True\<rparr>)
                     (\<lambda>r. likes_userId r = userId \<and> likes_photoId r = photoId \<and> likes_isDeleted r = False)
                     (schema_likes db)\<rparr>)
         | WriteCount \<Rightarrow>
             (case call_photo c of
                None \<Rightarrow> (c\<lparr>call_pc := Finished (Raised TypeError)\<rparr>, db)
              | Some ph \<Rightarrow>
                  (let v = (if hasLiked = 0 then photo_likeCount ph + 1
                            else if hasLiked \<noteq> 0 \<and> hasDeleted \<noteq> 0 then photo_likeCount ph + 1
                            else photo_likeCount ph - 1)
                   in if int4 v
                      then (c\<lparr>call_pc := Finished (Returned ())\<rparr>,
                            db\<lparr>schema_photos :=
                                  update_id (\<lambda>r. r\<lparr>photo_likeCount := v\<rparr>) photoId (schema_photos db)\<rparr>)
                      else (c\<lparr>call_pc := Finished (Raised DatabaseError)\<rparr>, db)))
         | Finished r \<Rightarrow> (c, db))"

text \<open>
  A schedule names, step by step, the call whose awaited statement the database
  executes next.
\<close>

fun run_schedule ::
  "nat list \<Rightarrow> 'k likePhoto_call list \<Rightarrow> 'k Database \<Rightarrow> 'k likePhoto_call list \<times> 'k Database" where
  "run_schedule [] cs db = (cs, db)"
| "run_schedule (i # sched) cs db =
     (if i < length cs
      then (let (c, db') = likePhoto_resume (cs ! i) db in run_schedule sched (cs[i := c]) db')
      else run_schedule sched cs db)"

section \<open>The in-memory store never holds a like row\<close>

lemmas mem_defs = mem_createUser_def mem_updateUserProfile_def mem_createPhoto_def
  mem_likePhoto_def mem_unlikePhoto_def mem_followUser_def mem_unfollowUser_def
  mem_createComment_def mem_likeComment_def mem_unlikeComment_def
  mem_createNotification_def mem_markNotificationAsRead_def mem_markAllNotificationsAsRead_def

lemma mem_step_likes: "likes (mem_step op s) = likes s"
  by (cases op) (simp_all add: mem_defs Let_def split: option.split)

lemma mem_step_commentLikes: "commentLikes (mem_step op s) = commentLikes s"
  by (cases op) (simp_all add: mem_defs Let_def split: option.split)

lemma mem_run_likes: "likes (mem_run ops s) = likes s"
  by (induction ops arbitrary: s) (simp_all add: mem_step_likes)

lemma mem_run_commentLikes: "commentLikes (mem_run ops s) = commentLikes s"
  by (induction ops arbitrary: s) (simp_all add: mem_step_commentLikes)

text \<open>
  Claim C10. No mutating method of \<^verbatim>\<open>MemStorage\<close> writes \<^verbatim>\<open>likes\<close> or \<^verbatim>\<open>commentLikes\<close>,
  so both are empty in every store reached from the constructor by any sequence of
  calls, and \<^verbatim>\<open>getLikedUsers\<close> returns the empty list for every photo id.
\<close>

theorem mem_likes_always_empty:
  "likes (mem_run ops MemStorage_new) = [] \<and>
   commentLikes (mem_run ops MemStorage_new) = [] \<and>
   mem_getLikedUsers photoId (mem_run ops MemStorage_new) = []"
  by (simp add: mem_run_likes mem_run_commentLikes mem_getLikedUsers_def js_values_def
      MemStorage_new_def List.map_filter_simps)

section \<open>The like toggle of the relational store\<close>

subsection \<open>Rows of the likes table under the three writes\<close>

lemma likes_pair_split:
  "deleted_likes_of_pair u p t +
   length (filter (\<lambda>r. likes_userId r = u \<and> likes_photoId r = p \<and> \<not> likes_isDeleted r) t) =
   likes_of_pair u p t"
  unfolding deleted_likes_of_pair_def likes_of_pair_def by (induction t) auto

lemma active_likes_append:
  "active_likes q (t @ [\<lparr>likes_userId = u, likes_photoId = p, likes_isDeleted = False\<rparr>]) =
   active_likes q t + (if q = p then 1 else 0)"
  by (simp add: active_likes_def)

lemma active_likes_clear:
  "active_likes q (update_where (\<lambda>r. r\<lparr>likes_isDeleted := False\<rparr>)
        (\<lambda>r. likes_userId r = u \<and> likes_photoId r = p \<and> likes_isDeleted r) t) =
   active_likes q t + (if q = p then deleted_likes_of_pair u p t else 0)"
  unfolding active_likes_def deleted_likes_of_pair_def
  by (induction t) (auto simp: update_where_def)

lemma active_likes_flag_aux:
  "active_likes q (update_where (\<lambda>r. r\<lparr>likes_isDeleted := True\<rparr>)
        (\<lambda>r. likes_userId r = u \<and> likes_photoId r = p \<and> \<not> likes_isDeleted r) t) +
   (if q = p then length (filter (\<lambda>r. likes_userId r = u \<and> likes_photoId r = p \<and> \<not> likes_isDeleted r) t) else 0) =
   active_likes q t"
  unfolding active_likes_def
  by (induction t) (auto simp: update_where_def)

lemma active_likes_flag:
  "int (active_likes q (update_where (\<lambda>r. r\<lparr>likes_isDeleted := True\<rparr>)
        (\<lambda>r. likes_userId r = u \<and> likes_photoId r = p \<and> \<not> likes_isDeleted r) t)) =
   int (active_likes q t) -
   (if q = p then int (likes_of_pair u p t) - int (deleted_likes_of_pair u p t) else 0)"
  using active_likes_flag_aux[of q u p t] likes_pair_split[of u p t]
  by (simp split: if_splits)

lemma likes_of_pair_append:
  "likes_of_pair u' p' (t @ [\<lparr>likes_userId = u, likes_photoId = p, likes_isDeleted = b\<rparr>]) =
   likes_of_pair u' p' t + (if u' = u \<and> p' = p then 1 else 0)"
  by (simp add: likes_of_pair_def)

lemma likes_of_pair_update:
  "likes_of_pair u' p' (update_where (\<lambda>r. r\<lparr>likes_isDeleted := b\<rparr>) c t) = likes_of_pair u' p' t"
  unfolding likes_of_pair_def by (induction t) (auto simp: update_where_def)

lemma deleted_likes_append:
  "deleted_likes_of_pair u' p' (t @ [\<lparr>likes_userId = u, likes_photoId = p, likes_isDeleted = False\<rparr>]) =
   deleted_likes_of_pair u' p' t"
  by (simp add: deleted_likes_of_pair_def)

lemma deleted_likes_clear_same:
  "deleted_likes_of_pair u p (update_where (\<lambda>r. r\<lparr>likes_isDeleted := False\<rparr>)
        (\<lambda>r. likes_userId r = u \<and> likes_photoId r = p \<and> likes_isDeleted r) t) = 0"
  unfolding deleted_likes_of_pair_def by (auto simp: update_where_def filter_empty_conv)

lemma deleted_likes_update_other:
  "(u', p') \<noteq> (u, p) \<Longrightarrow>
   deleted_likes_of_pair u' p' (update_where (\<lambda>r. r\<lparr>likes_isDeleted := b\<rparr>)
        (\<lambda>r. likes_userId r = u \<and> likes_photoId r = p \<and> c r) t) =
   deleted_likes_of_pair u' p' t"
  unfolding deleted_likes_of_pair_def by (induction t) (auto simp: update_where_def)

lemma deleted_likes_flag_same:
  "deleted_likes_of_pair u p (update_where (\<lambda>r. r\<lparr>likes_isDeleted := True\<rparr>)
        (\<lambda>r. likes_userId r = u \<and> likes_photoId r = p \<and> \<not> likes_isDeleted r) t) =
   likes_of_pair u p t"
  unfolding deleted_likes_of_pair_def likes_of_pair_def
  by (induction t) (auto simp: update_where_def)

lemma deleted_le_likes: "deleted_likes_of_pair u p t \<le> likes_of_pair u p t"
  using likes_pair_split[of u p t] by linarith

subsection \<open>What likePhoto writes\<close>

lemma pg_likePhoto_likes:
  "schema_likes (snd (pg_likePhoto u p db)) = likes_after u p (schema_likes db)"
  by (simp add: pg_likePhoto_def likes_after_def likes_of_pair_def deleted_likes_of_pair_def
      select_where_def Let_def split: option.split)

lemma pg_likePhoto_photos:
  "schema_photos (snd (pg_likePhoto u p db)) =
     (case schema_photos db p of
        None \<Rightarrow> schema_photos db
      | Some ph \<Rightarrow>
          if int4 (photo_likeCount ph + toggle_delta (like_state u p db))
          then (schema_photos db)(p \<mapsto>
                 ph\<lparr>photo_likeCount := photo_likeCount ph + toggle_delta (like_state u p db)\<rparr>)
          else schema_photos db)"
  by (simp add: pg_likePhoto_def like_state_def likes_of_pair_def deleted_likes_of_pair_def
      select_where_def Let_def update_id_def split: option.split)

lemma pg_likePhoto_others:
  "schema_users (snd (pg_likePhoto u p db)) = schema_users db"
  "schema_comments (snd (pg_likePhoto u p db)) = schema_comments db"
  "schema_follows (snd (pg_likePhoto u p db)) = schema_follows db"
  "schema_commentLikes (snd (pg_likePhoto u p db)) = schema_commentLikes db"
  by (simp_all add: pg_likePhoto_def select_where_def Let_def split: option.split)

lemma pg_likePhoto_outcome:
  "fst (pg_likePhoto u p db) =
     (case schema_photos db p of
        None \<Rightarrow> Raised TypeError
      | Some ph \<Rightarrow>
          if int4 (photo_likeCount ph + toggle_delta (like_state u p db))
          then Returned () else Raised DatabaseError)"
  by (simp add: pg_likePhoto_def like_state_def likes_of_pair_def deleted_likes_of_pair_def
      select_where_def Let_def split: option.split)

lemma likes_after_pair:
  "likes_of_pair u' p' (likes_after u p t) =
   likes_of_pair u' p' t + (if u' = u \<and> p' = p \<and> likes_of_pair u p t = 0 then 1 else 0)"
  by (simp add: likes_after_def likes_of_pair_append likes_of_pair_update)

lemma likes_after_deleted:
  "deleted_likes_of_pair u' p' (likes_after u p t) =
   (if u' = u \<and> p' = p
    then (if likes_of_pair u p t = 0 \<or> deleted_likes_of_pair u p t \<noteq> 0 then 0 else likes_of_pair u p t)
    else deleted_likes_of_pair u' p' t)"
  using deleted_le_likes[of u p t]
  by (cases "(u', p') = (u, p)")
     (auto simp add: likes_after_def deleted_likes_append deleted_likes_clear_same
        deleted_likes_flag_same deleted_likes_update_other)

lemma pg_likePhoto_state:
  "like_state u p (snd (pg_likePhoto u p db)) = toggle_next (like_state u p db)"
  by (simp add: like_state_def pg_likePhoto_likes likes_after_pair likes_after_deleted)





lemma active_likes_after:
  assumes "likes_of_pair u p t \<le> 1"
  shows "int (active_likes q (likes_after u p t)) =
         int (active_likes q t) +
         (if q = p then (if likes_of_pair u p t = 0 \<or> deleted_likes_of_pair u p t \<noteq> 0 then 1 else - 1)
          else 0)"
proof -
  consider (absent) "likes_of_pair u p t = 0"
    | (inactive) "likes_of_pair u p t = 1" "deleted_likes_of_pair u p t = 1"
    | (active) "likes_of_pair u p t = 1" "deleted_likes_of_pair u p t = 0"
    using assms deleted_le_likes[of u p t] by linarith
  then show ?thesis
  proof cases
    case absent
    then show ?thesis by (simp add: likes_after_def active_likes_append)
  next
    case inactive
    then show ?thesis by (simp add: likes_after_def active_likes_clear)
  next
    case active
    then show ?thesis by (simp add: likes_after_def active_likes_flag)
  qed
qed

lemma active_likes_le_length: "active_likes q t \<le> length t"
  by (simp add: active_likes_def)

lemma likes_after_length: "length (likes_after u p t) \<le> Suc (length t)"
  by (simp add: likes_after_def update_where_def)

lemma pg_likePhoto_fits:
  assumes "like_counters_ok db" and "length (schema_likes db) < 2147483647"
    and "schema_photos db p = Some ph"
  shows "int4 (photo_likeCount ph + toggle_delta (like_state u p db))"
proof -
  from assms(1,3) have "photo_likeCount ph = int (active_likes p (schema_likes db))"
    by (simp add: like_counters_ok_def)
  moreover have "active_likes p (schema_likes db) \<le> length (schema_likes db)"
    by (rule active_likes_le_length)
  ultimately show ?thesis
    using assms(2) by (cases "like_state u p db") (simp_all add: int4_def)
qed

lemma pg_likePhoto_inv:
  assumes "like_counters_ok db" and "length (schema_likes db) < 2147483647"
  shows "like_counters_ok (snd (pg_likePhoto u p db))"
proof -
  let ?db = "snd (pg_likePhoto u p db)"
  have uniq: "likes_of_pair u p (schema_likes db) \<le> 1"
    using assms(1) by (simp add: like_counters_ok_def)
  have photos: "photo_likeCount ph = int (active_likes q (schema_likes ?db))"
    if "schema_photos ?db q = Some ph" for q ph
  proof (cases "q = p")
    case False
    with that have "schema_photos db q = Some ph"
      by (simp add: pg_likePhoto_photos split: option.splits if_splits)
    with assms(1) False show ?thesis
      by (simp add: like_counters_ok_def pg_likePhoto_likes active_likes_after[OF uniq])
  next
    case True
    with that obtain ph0 where ph0: "schema_photos db p = Some ph0"
      by (auto simp: pg_likePhoto_photos split: option.splits)
    from pg_likePhoto_fits[OF assms ph0] that True ph0
    have ph: "ph = ph0\<lparr>photo_likeCount := photo_likeCount ph0 + toggle_delta (like_state u p db)\<rparr>"
      by (simp add: pg_likePhoto_photos)
    from assms(1) ph0 have "photo_likeCount ph0 = int (active_likes p (schema_likes db))"
      by (simp add: like_counters_ok_def)
    with True ph show ?thesis
      by (simp add: pg_likePhoto_likes active_likes_after[OF uniq] like_state_def)
  qed
  have pairs: "likes_of_pair u' p' (schema_likes ?db) \<le> 1" for u' p'
    using assms(1) by (auto simp: like_counters_ok_def pg_likePhoto_likes likes_after_pair)
  show ?thesis
    unfolding like_counters_ok_def
    using assms(1) photos pairs by (simp add: pg_likePhoto_others like_counters_ok_def)
qed

section \<open>The comment-like toggle of the relational store\<close>

subsection \<open>Rows of the commentLikes table under the three writes\<close>

lemma commentLikes_pair_split:
  "deleted_commentLikes_of_pair u p t +
   length (filter (\<lambda>r. commentLikes_userId r = u \<and> commentLikes_commentId r = p \<and> \<not> commentLikes_isDeleted r) t) =
   commentLikes_of_pair u p t"
  unfolding deleted_commentLikes_of_pair_def commentLikes_of_pair_def by (induction t) auto

lemma active_commentLikes_append:
  "active_commentLikes q (t @ [\<lparr>commentLikes_userId = u, commentLikes_commentId = p, commentLikes_isDeleted = False\<rparr>]) =
   active_commentLikes q t + (if q = p then 1 else 0)"
  by (simp add: active_commentLikes_def)

lemma active_commentLikes_clear:
  "active_commentLikes q (update_where (\<lambda>r. r\<lparr>commentLikes_isDeleted := False\<rparr>)
        (\<lambda>r. commentLikes_userId r = u \<and> commentLikes_commentId r = p \<and> commentLikes_isDeleted r) t) =
   active_commentLikes q t + (if q = p then deleted_commentLikes_of_pair u p t else 0)"
  unfolding active_commentLikes_def deleted_commentLikes_of_pair_def
  by (induction t) (auto simp: update_where_def)

lemma active_commentLikes_flag_aux:
  "active_commentLikes q (update_where (\<lambda>r. r\<lparr>commentLikes_isDeleted := True\<rparr>)
        (\<lambda>r. commentLikes_userId r = u \<and> commentLikes_commentId r = p \<and> \<not> commentLikes_isDeleted r) t) +
   (if q = p then length (filter (\<lambda>r. commentLikes_userId r = u \<and> commentLikes_commentId r = p \<and> \<not> commentLikes_isDeleted r) t) else 0) =
   active_commentLikes q t"
  unfolding active_commentLikes_def
  by (induction t) (auto simp: update_where_def)

lemma active_commentLikes_flag:
  "int (active_commentLikes q (update_where (\<lambda>r. r\<lparr>commentLikes_isDeleted := True\<rparr>)
        (\<lambda>r. commentLikes_userId r = u \<and> commentLikes_commentId r = p \<and> \<not> commentLikes_isDeleted r) t)) =
   int (active_commentLikes q t) -
   (if q = p then int (commentLikes_of_pair u p t) - int (deleted_commentLikes_of_pair u p t) else 0)"
  using active_commentLikes_flag_aux[of q u p t] commentLikes_pair_split[of u p t]
  by (simp split: if_splits)

lemma commentLikes_of_pair_append:
  "commentLikes_of_pair u' p' (t @ [\<lparr>commentLikes_userId = u, commentLikes_commentId = p, commentLikes_isDeleted = b\<rparr>]) =
   commentLikes_of_pair u' p' t + (if u' = u \<and> p' = p then 1 else 0)"
  by (simp add: commentLikes_of_pair_def)

lemma commentLikes_of_pair_update:
  "commentLikes_of_pair u' p' (update_where (\<lambda>r. r\<lparr>commentLikes_isDeleted := b\<rparr>) c t) = commentLikes_of_pair u' p' t"
  unfolding commentLikes_of_pair_def by (induction t) (auto simp: update_where_def)

lemma deleted_commentLikes_append:
  "deleted_commentLikes_of_pair u' p' (t @ [\<lparr>commentLikes_userId = u, commentLikes_commentId = p, commentLikes_isDeleted = False\<rparr>]) =
   deleted_commentLikes_of_pair u' p' t"
  by (simp add: deleted_commentLikes_of_pair_def)

lemma deleted_commentLikes_clear_same:
  "deleted_commentLikes_of_pair u p (update_where (\<lambda>r. r\<lparr>commentLikes_isDeleted := False\<rparr>)
        (\<lambda>r. commentLikes_userId r = u \<and> commentLikes_commentId r = p \<and> commentLikes_isDeleted r) t) = 0"
  unfolding deleted_commentLikes_of_pair_def by (auto simp: update_where_def filter_empty_conv)

lemma deleted_commentLikes_update_other:
  "(u', p') \<noteq> (u, p) \<Longrightarrow>
   deleted_commentLikes_of_pair u' p' (update_where (\<lambda>r. r\<lparr>commentLikes_isDeleted := b\<rparr>)
        (\<lambda>r. commentLikes_userId r = u \<and> commentLikes_commentId r = p \<and> c r) t) =
   deleted_commentLikes_of_pair u' p' t"
  unfolding deleted_commentLikes_of_pair_def by (induction t) (auto simp: update_where_def)

lemma deleted_commentLikes_flag_same:
  "deleted_commentLikes_of_pair u p (update_where (\<lambda>r. r\<lparr>commentLikes_isDeleted := True\<rparr>)
        (\<lambda>r. commentLikes_userId r = u \<and> commentLikes_commentId r = p \<and> \<not> commentLikes_isDeleted r) t) =
   commentLikes_of_pair u p t"
  unfolding deleted_commentLikes_of_pair_def commentLikes_of_pair_def
  by (induction t) (auto simp: update_where_def)

lemma deleted_le_commentLikes: "deleted_commentLikes_of_pair u p t \<le> commentLikes_of_pair u p t"
  using commentLikes_pair_split[of u p t] by linarith

subsection \<open>What likeComment writes\<close>

lemma pg_likeComment_commentLikes:
  "schema_commentLikes (snd (pg_likeComment u p db)) = commentLikes_after u p (schema_commentLikes db)"
  by (simp add: pg_likeComment_def commentLikes_after_def commentLikes_of_pair_def deleted_commentLikes_of_pair_def
      select_where_def Let_def split: option.split)

lemma pg_likeComment_comments:
  "schema_comments (snd (pg_likeComment u p db)) =
     (case schema_comments db p of
        None \<Rightarrow> schema_comments db
      | Some ph \<Rightarrow>
          if int4 (comment_likeCount ph + toggle_delta (commentLike_state u p db))
          then (schema_comments db)(p \<mapsto>
                 ph\<lparr>comment_likeCount := comment_likeCount ph + toggle_delta (commentLike_state u p db)\<rparr>)
          else schema_comments db)"
  by (simp add: pg_likeComment_def commentLike_state_def commentLikes_of_pair_def deleted_commentLikes_of_pair_def
      select_where_def Let_def update_id_def split: option.split)

lemma pg_likeComment_others:
  "schema_users (snd (pg_likeComment u p db)) = schema_users db"
  "schema_photos (snd (pg_likeComment u p db)) = schema_photos db"
  "schema_follows (snd (pg_likeComment u p db)) = schema_follows db"
  "schema_likes (snd (pg_likeComment u p db)) = schema_likes db"
  by (simp_all add: pg_likeComment_def select_where_def Let_def split: option.split)

lemma pg_likeComment_outcome:
  "fst (pg_likeComment u p db) =
     (case schema_comments db p of
        None \<Rightarrow> Raised TypeError
      | Some ph \<Rightarrow>
          if int4 (comment_likeCount ph + toggle_delta (commentLike_state u p db))
          then Returned () else Raised DatabaseError)"
  by (simp add: pg_likeComment_def commentLike_state_def commentLikes_of_pair_def deleted_commentLikes_of_pair_def
      select_where_def Let_def split: option.split)

lemma commentLikes_after_pair:
  "commentLikes_of_pair u' p' (commentLikes_after u p t) =
   commentLikes_of_pair u' p' t + (if u' = u \<and> p' = p \<and> commentLikes_of_pair u p t = 0 then 1 else 0)"
  by (simp add: commentLikes_after_def commentLikes_of_pair_append commentLikes_of_pair_update)

lemma commentLikes_after_deleted:
  "deleted_commentLikes_of_pair u' p' (commentLikes_after u p t) =
   (if u' = u \<and> p' = p
    then (if commentLikes_of_pair u p t = 0 \<or> deleted_commentLikes_of_pair u p t \<noteq> 0 then 0 else commentLikes_of_pair u p t)
    else deleted_commentLikes_of_pair u' p' t)"
  using deleted_le_commentLikes[of u p t]
  by (cases "(u', p') = (u, p)")
     (auto simp add: commentLikes_after_def deleted_commentLikes_append deleted_commentLikes_clear_same
        deleted_commentLikes_flag_same deleted_commentLikes_update_other)

lemma pg_likeComment_state:
  "commentLike_state u p (snd (pg_likeComment u p db)) = toggle_next (commentLike_state u p db)"
  by (simp add: commentLike_state_def pg_likeComment_commentLikes commentLikes_after_pair commentLikes_after_deleted)




lemma active_commentLikes_after:
  assumes "commentLikes_of_pair u p t \<le> 1"
  shows "int (active_commentLikes q (commentLikes_after u p t)) =
         int (active_commentLikes q t) +
         (if q = p then (if commentLikes_of_pair u p t = 0 \<or> deleted_commentLikes_of_pair u p t \<noteq> 0 then 1 else - 1)
          else 0)"
proof -
  consider (absent) "commentLikes_of_pair u p t = 0"
    | (inactive) "commentLikes_of_pair u p t = 1" "deleted_commentLikes_of_pair u p t = 1"
    | (active) "commentLikes_of_pair u p t = 1" "deleted_commentLikes_of_pair u p t = 0"
    using assms deleted_le_commentLikes[of u p t] by linarith
  then show ?thesis
  proof cases
    case absent
    then show ?thesis by (simp add: commentLikes_after_def active_commentLikes_append)
  next
    case inactive
    then show ?thesis by (simp add: commentLikes_after_def active_commentLikes_clear)
  next
    case active
    then show ?thesis by (simp add: commentLikes_after_def active_commentLikes_flag)
  qed
qed

lemma active_commentLikes_le_length: "active_commentLikes q t \<le> length t"
  by (simp add: active_commentLikes_def)

lemma commentLikes_after_length: "length (commentLikes_after u p t) \<le> Suc (length t)"
  by (simp add: commentLikes_after_def update_where_def)

lemma pg_likeComment_fits:
  assumes "like_counters_ok db" and "length (schema_commentLikes db) < 2147483647"
    and "schema_comments db p = Some ph"
  shows "int4 (comment_likeCount ph + toggle_delta (commentLike_state u p db))"
proof -
  from assms(1,3) have "comment_likeCount ph = int (active_commentLikes p (schema_commentLikes db))"
    by (simp add: like_counters_ok_def)
  moreover have "active_commentLikes p (schema_commentLikes db) \<le> length (schema_commentLikes db)"
    by (rule active_commentLikes_le_length)
  ultimately show ?thesis
    using assms(2) by (cases "commentLike_state u p db") (simp_all add: int4_def)
qed

lemma pg_likeComment_inv:
  assumes "like_counters_ok db" and "length (schema_commentLikes db) < 2147483647"
  shows "like_counters_ok (snd (pg_likeComment u p db))"
proof -
  let ?db = "snd (pg_likeComment u p db)"
  have uniq: "commentLikes_of_pair u p (schema_commentLikes db) \<le> 1"
    using assms(1) by (simp add: like_counters_ok_def)
  have photos: "comment_likeCount ph = int (active_commentLikes q (schema_commentLikes ?db))"
    if "schema_comments ?db q = Some ph" for q ph
  proof (cases "q = p")
    case False
    with that have "schema_comments db q = Some ph"
      by (simp add: pg_likeComment_comments split: option.splits if_splits)
    with assms(1) False show ?thesis
      by (simp add: like_counters_ok_def pg_likeComment_commentLikes active_commentLikes_after[OF uniq])
  next
    case True
    with that obtain ph0 where ph0: "schema_comments db p = Some ph0"
      by (auto simp: pg_likeComment_comments split: option.splits)
    from pg_likeComment_fits[OF assms ph0] that True ph0
    have ph: "ph = ph0\<lparr>comment_likeCount := comment_likeCount ph0 + toggle_delta (commentLike_state u p db)\<rparr>"
      by (simp add: pg_likeComment_comments)
    from assms(1) ph0 have "comment_likeCount ph0 = int (active_commentLikes p (schema_commentLikes db))"
      by (simp add: like_counters_ok_def)
    with True ph show ?thesis
      by (simp add: pg_likeComment_commentLikes active_commentLikes_after[OF uniq] commentLike_state_def)
  qed
  have pairs: "commentLikes_of_pair u' p' (schema_commentLikes ?db) \<le> 1" for u' p'
    using assms(1) by (auto simp: like_counters_ok_def pg_likeComment_commentLikes commentLikes_after_pair)
  show ?thesis
    unfolding like_counters_ok_def
    using assms(1) photos pairs by (simp add: pg_likeComment_others like_counters_ok_def)
qed

section \<open>The example stores, evaluated\<close>

lemma mem_example_eval:
  "users mem_example (Suc 0) = Some \<lparr>user_id = 1, username = ''alice'', password = ''a'', displayName = None,
      bio = None, avatarUrl = None, followerCount = 0\<rparr>"
  "users mem_example 2 = Some \<lparr>user_id = 2, username = ''bob'', password = ''b'', displayName = None,
      bio = None, avatarUrl = None, followerCount = 0\<rparr>"
  "photos mem_example (Suc 0) = Some \<lparr>photo_id = 1, photo_userId = 1, imageUrl = ''a.png'', caption = None,
      photo_likeCount = 0, commentCount = 1, photo_createdAt = 10\<rparr>"
  "comments mem_example (Suc 0) = Some \<lparr>comment_id = 1, comment_userId = 2, comment_photoId = 1,
      content = ''nice'', comment_likeCount = 0, comment_createdAt = 11\<rparr>"
  "follows mem_example = []" "likes mem_example = []" "commentLikes mem_example = []"
  "currentFollowId mem_example = 1"
  by (simp_all add: mem_example_def MemStorage_new_def mem_createUser_def mem_createPhoto_def
      mem_createComment_def alice_def bob_def or_null_string_def Let_def)

lemmas pg_eval = pg_example_def mem_example_eval like_state_def commentLike_state_def
  likes_of_pair_def deleted_likes_of_pair_def active_likes_def
  commentLikes_of_pair_def deleted_commentLikes_of_pair_def active_commentLikes_def
  follows_of_pair_def active_follows_of_pair_def
  pg_likePhoto_def pg_likeComment_def pg_followUser_def pg_unfollowUser_def pg_unlikeComment_def
  select_where_def update_where_def delete_where_def update_id_def int4_def Let_def

section \<open>The like toggles: transition table, double toggle, counter invariant\<close>









text \<open>
  When the new value does not fit the column, the row is written all the same and the
  counter stays: the pair moves on, the call ends in a database error.
\<close>

lemma pg_likePhoto_rejected:
  assumes "schema_photos db p = Some ph"
    and "\<not> int4 (photo_likeCount ph + toggle_delta (like_state u p db))"
  shows "fst (pg_likePhoto u p db) = Raised DatabaseError \<and>
         schema_photos (snd (pg_likePhoto u p db)) = schema_photos db \<and>
         like_state u p (snd (pg_likePhoto u p db)) = toggle_next (like_state u p db)"
  using assms by (simp add: pg_likePhoto_outcome pg_likePhoto_photos pg_likePhoto_state)

lemma pg_likeComment_rejected:
  assumes "schema_comments db c = Some cm"
    and "\<not> int4 (comment_likeCount cm + toggle_delta (commentLike_state u c db))"
  shows "fst (pg_likeComment u c db) = Raised DatabaseError \<and>
         schema_comments (snd (pg_likeComment u c db)) = schema_comments db \<and>
         commentLike_state u c (snd (pg_likeComment u c db)) = toggle_next (commentLike_state u c db)"
  using assms by (simp add: pg_likeComment_outcome pg_likeComment_comments pg_likeComment_state)




section \<open>Follow and unfollow in the relational store\<close>

lemma pg_followUser_follows:
  assumes "schema_users db b = Some u" and "int4 (followerCount u + 1)"
  shows "schema_follows (snd (pg_followUser a b db)) =
     (if follows_of_pair a b (schema_follows db) \<noteq> 0
      then update_where (\<lambda>r. r\<lparr>follows_isDeleted := False\<rparr>)
             (\<lambda>r. follows_followerId r = a \<and> follows_followingId r = b) (schema_follows db)
      else schema_follows db @
             [\<lparr>follows_followerId = a, follows_followingId = b, follows_isDeleted = False\<rparr>])"
  using assms
  by (simp add: pg_followUser_def follows_of_pair_def select_where_def Let_def split: option.split)

lemma pg_followUser_users:
  assumes "schema_users db b = Some u" and "int4 (followerCount u + 1)"
  shows "schema_users (snd (pg_followUser a b db)) =
     update_id (\<lambda>r. r\<lparr>followerCount := followerCount r + 1\<rparr>) b (schema_users db)"
  using assms
  by (simp add: pg_followUser_def select_where_def Let_def update_id_def split: option.split)

lemma pg_followUser_others:
  "schema_photos (snd (pg_followUser a b db)) = schema_photos db"
  "schema_comments (snd (pg_followUser a b db)) = schema_comments db"
  "schema_likes (snd (pg_followUser a b db)) = schema_likes db"
  "schema_commentLikes (snd (pg_followUser a b db)) = schema_commentLikes db"
  by (simp_all add: pg_followUser_def select_where_def Let_def split: option.split)

lemma pg_unfollowUser_follows:
  assumes "schema_users db b = Some u" and "int4 (followerCount u - 1)"
  shows "schema_follows (snd (pg_unfollowUser a b db)) =
     update_where (\<lambda>r. r\<lparr>follows_isDeleted := True\<rparr>)
       (\<lambda>r. follows_followerId r = a \<and> follows_followingId r = b) (schema_follows db)"
  using assms by (simp add: pg_unfollowUser_def Let_def split: option.split)

lemma pg_unfollowUser_users:
  assumes "schema_users db b = Some u" and "int4 (followerCount u - 1)"
  shows "schema_users (snd (pg_unfollowUser a b db)) =
     update_id (\<lambda>r. r\<lparr>followerCount := followerCount r - 1\<rparr>) b (schema_users db)"
  using assms
  by (simp add: pg_unfollowUser_def Let_def update_id_def split: option.split)

lemma pg_unfollowUser_others:
  "schema_photos (snd (pg_unfollowUser a b db)) = schema_photos db"
  "schema_comments (snd (pg_unfollowUser a b db)) = schema_comments db"
  "schema_likes (snd (pg_unfollowUser a b db)) = schema_likes db"
  "schema_commentLikes (snd (pg_unfollowUser a b db)) = schema_commentLikes db"
  by (simp_all add: pg_unfollowUser_def Let_def split: option.split)

lemma follows_of_pair_update:
  "follows_of_pair a' b' (update_where (\<lambda>r. r\<lparr>follows_isDeleted := d\<rparr>) c t) = follows_of_pair a' b' t"
  unfolding follows_of_pair_def by (induction t) (auto simp: update_where_def)

lemma active_follows_of_pair_le: "active_follows_of_pair a b t \<le> follows_of_pair a b t"
  unfolding follows_of_pair_def active_follows_of_pair_def by (induction t) auto

lemma active_follows_clear_same:
  "active_follows_of_pair a b (update_where (\<lambda>r. r\<lparr>follows_isDeleted := False\<rparr>)
      (\<lambda>r. follows_followerId r = a \<and> follows_followingId r = b) t) = follows_of_pair a b t"
  unfolding follows_of_pair_def active_follows_of_pair_def
  by (induction t) (auto simp: update_where_def)

lemma active_follows_flag_same:
  "active_follows_of_pair a b (update_where (\<lambda>r. r\<lparr>follows_isDeleted := True\<rparr>)
      (\<lambda>r. follows_followerId r = a \<and> follows_followingId r = b) t) = 0"
  unfolding active_follows_of_pair_def by (auto simp: update_where_def filter_empty_conv)

lemma active_follows_update_other:
  "(a', b') \<noteq> (a, b) \<Longrightarrow>
   active_follows_of_pair a' b' (update_where (\<lambda>r. r\<lparr>follows_isDeleted := d\<rparr>)
      (\<lambda>r. follows_followerId r = a \<and> follows_followingId r = b) t) = active_follows_of_pair a' b' t"
  unfolding active_follows_of_pair_def by (induction t) (auto simp: update_where_def)

lemma pg_isFollowing_active:
  "pg_isFollowing a b db \<longleftrightarrow> active_follows_of_pair a b (schema_follows db) > 0"
  by (simp add: pg_isFollowing_def active_follows_of_pair_def select_where_def)

section \<open>Decrements and missing targets\<close>

text \<open>
  Claim C5 (no counter is ever below 0, also after a redundant un-toggle). The
  relational \<^verbatim>\<open>unfollowUser\<close> subtracts one without looking for a follow: on the example
  store, where user 1 does not follow user 2 and user 2 has \<open>followerCount = 0\<close>, the
  call returns and leaves \<open>followerCount = -1\<close>.
\<close>

theorem pg_unfollow_goes_negative:
  "follows_of_pair 1 2 (schema_follows pg_example) = 0 \<and>
   map_option followerCount (schema_users pg_example 2) = Some 0 \<and>
   fst (pg_unfollowUser 1 2 pg_example) = Returned () \<and>
   map_option followerCount (schema_users (snd (pg_unfollowUser 1 2 pg_example)) 2) = Some (- 1)"
  by (simp add: pg_eval)

text \<open>
  Claim C4, as amended. In the in-memory store, \<^verbatim>\<open>likePhoto\<close>, \<^verbatim>\<open>unlikePhoto\<close>,
  \<^verbatim>\<open>likeComment\<close> and \<^verbatim>\<open>unlikeComment\<close> on a target id that names no stored entity
  return normally and leave the store as it was: no row is created, no counter is
  changed, and no error is raised.
\<close>

theorem mem_missing_target_is_noop:
  assumes "photos s p = None" and "comments s c = None"
  shows "mem_likePhoto u p s = (Returned (), s) \<and> mem_unlikePhoto u p s = (Returned (), s) \<and>
         mem_likeComment u c s = (Returned (), s) \<and> mem_unlikeComment u c s = (Returned (), s)"
  using assms by (simp add: mem_likePhoto_def mem_unlikePhoto_def mem_likeComment_def mem_unlikeComment_def)

text \<open>
  Photo 7 and comment 7 do not exist in the example store.
\<close>

theorem mem_missing_target_is_noop_witness:
  "photos mem_example 7 = None \<and> comments mem_example 7 = None \<and>
   mem_likePhoto 1 7 mem_example = (Returned (), mem_example) \<and>
   mem_unlikePhoto 1 7 mem_example = (Returned (), mem_example) \<and>
   mem_likeComment 1 7 mem_example = (Returned (), mem_example) \<and>
   mem_unlikeComment 1 7 mem_example = (Returned (), mem_example)"
proof -
  have h: "photos mem_example 7 = None" "comments mem_example 7 = None"
    by (simp_all add: mem_example_def MemStorage_new_def mem_createUser_def mem_createPhoto_def
        mem_createComment_def Let_def)
  show ?thesis using mem_missing_target_is_noop[OF h, of 1] h by simp
qed

text \<open>
  Claim C4 as stated fails: liking the missing photo 7 in the in-memory store returns
  normally instead of failing with an error.
\<close>

theorem mem_like_missing_photo_returns:
  "photos mem_example 7 = None \<and> fst (mem_likePhoto 1 7 mem_example) = Returned ()"
  by (simp add: mem_likePhoto_def mem_example_def MemStorage_new_def mem_createUser_def
      mem_createPhoto_def mem_createComment_def Let_def)

lemma pg_like_missing_photo:
  "schema_photos pg_example 7 = None \<and>
   pg_likePhoto 1 7 pg_example =
     (Raised TypeError,
      pg_example\<lparr>schema_likes := [\<lparr>likes_userId = 1, likes_photoId = 7, likes_isDeleted = False\<rparr>]\<rparr>)"
  by (simp add: pg_likePhoto_def select_where_def pg_example_def mem_example_def MemStorage_new_def
      mem_createUser_def mem_createPhoto_def mem_createComment_def Let_def)

section \<open>The in-memory counters stay at or above zero\<close>

lemma mem_step_nonneg: "mem_counters_nonneg s \<Longrightarrow> mem_counters_nonneg (mem_step op s)"
  unfolding mem_counters_nonneg_def
  by (cases op)
     (auto simp add: mem_defs Let_def split: option.splits if_splits)

lemma mem_run_nonneg: "mem_counters_nonneg s \<Longrightarrow> mem_counters_nonneg (mem_run ops s)"
  by (induction ops arbitrary: s) (simp_all add: mem_step_nonneg)

lemma mem_reachable_nonneg: "mem_counters_nonneg (mem_run ops MemStorage_new)"
  by (rule mem_run_nonneg) (simp add: mem_counters_nonneg_def MemStorage_new_def)

section \<open>Follow and unfollow in the in-memory store\<close>

lemma mem_isFollowing_count:
  "mem_isFollowing a b s \<longleftrightarrow> mem_follows_of_pair a b (follows s) > 0"
  by (auto simp add: mem_isFollowing_def mem_follows_of_pair_def list_ex_iff filter_empty_conv)

lemma js_set_fresh: "k \<notin> fst ` set m \<Longrightarrow> js_set k v m = m @ [(k, v)]"
  by (simp add: js_set_def)

lemma follows_wf_fresh: "follows_wf s \<Longrightarrow> currentFollowId s \<notin> fst ` set (follows s)"
  by (auto simp add: follows_wf_def list_all_iff)

lemma mem_followUser_already:
  "mem_isFollowing a b s \<Longrightarrow> mem_followUser a b s = (Returned (), s)"
  by (simp add: mem_followUser_def)

lemma mem_followUser_follows:
  assumes "follows_wf s" and "\<not> mem_isFollowing a b s"
  shows "follows (snd (mem_followUser a b s)) =
         follows s @ [(currentFollowId s, \<lparr>follow_id = currentFollowId s, followerId = a, followingId = b\<rparr>)]"
  using assms follows_wf_fresh[OF assms(1)]
  by (simp add: mem_followUser_def Let_def js_set_fresh split: option.split)

lemma mem_followUser_users:
  assumes "\<not> mem_isFollowing a b s"
  shows "users (snd (mem_followUser a b s)) =
         update_id (\<lambda>r. r\<lparr>followerCount := followerCount r + 1\<rparr>) b (users s)"
  using assms by (simp add: mem_followUser_def Let_def update_id_def split: option.split)

lemma mem_followUser_currentFollowId:
  "currentFollowId (snd (mem_followUser a b s)) =
     (if mem_isFollowing a b s then currentFollowId s else currentFollowId s + 1)"
  by (simp add: mem_followUser_def Let_def split: option.split)

lemma mem_followUser_wf:
  assumes "follows_wf s"
  shows "follows_wf (snd (mem_followUser a b s))"
proof (cases "mem_isFollowing a b s")
  case True
  with assms show ?thesis by (simp add: mem_followUser_already)
next
  case False
  have "list_all (\<lambda>(k, _). k < Suc (currentFollowId s)) (follows s)"
    using assms by (auto simp add: follows_wf_def list_all_iff)
  with assms False follows_wf_fresh[OF assms] show ?thesis
    by (simp add: follows_wf_def mem_followUser_follows mem_followUser_currentFollowId)
qed

lemma js_delete_wf:
  "distinct (map fst m) \<Longrightarrow> distinct (map fst (js_delete k m))"
  by (simp add: js_delete_def distinct_map_filter)

lemma mem_unfollowUser_follows:
  "follows (snd (mem_unfollowUser a b s)) =
     (case find (\<lambda>(_, follow). followerId follow = a \<and> followingId follow = b) (follows s) of
        None \<Rightarrow> follows s | Some e \<Rightarrow> js_delete (fst e) (follows s))"
  by (simp add: mem_unfollowUser_def Let_def split: option.split)

lemma mem_unfollowUser_currentFollowId:
  "currentFollowId (snd (mem_unfollowUser a b s)) = currentFollowId s"
  by (simp add: mem_unfollowUser_def Let_def split: option.split)

lemma mem_unfollowUser_wf:
  assumes "follows_wf s"
  shows "follows_wf (snd (mem_unfollowUser a b s))"
proof -
  have "distinct (map fst (follows (snd (mem_unfollowUser a b s))))"
    using assms by (simp add: follows_wf_def mem_unfollowUser_follows js_delete_wf split: option.split)
  moreover have "list_all (\<lambda>(k, _). k < currentFollowId s) (follows (snd (mem_unfollowUser a b s)))"
    using assms
    by (auto simp add: follows_wf_def mem_unfollowUser_follows js_delete_def list_all_iff
        split: option.split)
  ultimately show ?thesis
    by (simp add: follows_wf_def mem_unfollowUser_currentFollowId)
qed

lemma mem_step_follows_other:
  "\<not> is_unfollow op \<Longrightarrow> (\<forall>a b. op \<noteq> FollowUser a b) \<Longrightarrow>
   follows (mem_step op s) = follows s \<and> currentFollowId (mem_step op s) = currentFollowId s"
  by (cases op) (simp_all add: mem_defs Let_def split: option.split)

lemma mem_step_wf: "follows_wf s \<Longrightarrow> follows_wf (mem_step op s)"
proof (cases op)
  case (FollowUser a b)
  then show "follows_wf s \<Longrightarrow> ?thesis" by (simp add: mem_followUser_wf)
next
  case (UnfollowUser a b)
  then show "follows_wf s \<Longrightarrow> ?thesis" by (simp add: mem_unfollowUser_wf)
qed (use mem_step_follows_other[of op s] in \<open>simp_all add: follows_wf_def\<close>)

lemma mem_run_wf: "follows_wf s \<Longrightarrow> follows_wf (mem_run ops s)"
  by (induction ops arbitrary: s) (simp_all add: mem_step_wf)

lemma MemStorage_new_wf: "follows_wf MemStorage_new"
  by (simp add: follows_wf_def MemStorage_new_def)

lemma mem_step_keeps_follows:
  assumes "follows_wf s" and "\<not> is_unfollow op"
  shows "\<exists>ys. follows (mem_step op s) = follows s @ ys"
proof (cases "\<exists>a b. op = FollowUser a b")
  case True
  then obtain a b where "op = FollowUser a b" by blast
  with assms show ?thesis
    by (cases "mem_isFollowing a b s") (simp_all add: mem_followUser_already mem_followUser_follows)
next
  case False
  with assms mem_step_follows_other[of op s] show ?thesis by simp
qed

lemma mem_run_keeps_follows:
  "follows_wf s \<Longrightarrow> list_all (\<lambda>op. \<not> is_unfollow op) ops \<Longrightarrow>
   \<exists>ys. follows (mem_run ops s) = follows s @ ys"
proof (induction ops arbitrary: s)
  case Nil
  then show ?case by simp
next
  case (Cons op ops)
  from Cons.prems obtain ys where 1: "follows (mem_step op s) = follows s @ ys"
    using mem_step_keeps_follows[of s op] by auto
  from Cons.prems have "follows_wf (mem_step op s)" by (simp add: mem_step_wf)
  with Cons.IH[of "mem_step op s"] Cons.prems obtain zs where
    "follows (mem_run ops (mem_step op s)) = follows (mem_step op s) @ zs" by auto
  with 1 show ?case by simp
qed

lemma mem_example_wf: "follows_wf mem_example"
  unfolding mem_example_def by (rule mem_run_wf) (rule MemStorage_new_wf)

section \<open>Rows are kept\<close>

lemma map_key_update_likes:
  "map likes_key (update_where (\<lambda>r. r\<lparr>likes_isDeleted := d\<rparr>) c t) = map likes_key t"
  by (simp add: update_where_def likes_key_def)

lemma map_key_update_follows:
  "map follows_key (update_where (\<lambda>r. r\<lparr>follows_isDeleted := d\<rparr>) c t) = map follows_key t"
  by (simp add: update_where_def follows_key_def)

lemma map_key_update_commentLikes:
  "map commentLikes_key (update_where (\<lambda>r. r\<lparr>commentLikes_isDeleted := d\<rparr>) c t) =
   map commentLikes_key t"
  by (simp add: update_where_def commentLikes_key_def)

lemma pg_step_keeps_likes:
  "\<exists>ys. map likes_key (schema_likes (pg_step op db)) = map likes_key (schema_likes db) @ ys"
  by (cases op)
     (simp_all add: pg_likePhoto_likes likes_after_def map_key_update_likes pg_followUser_others
        pg_unfollowUser_others pg_likeComment_others pg_unlikeComment_def Let_def)

lemma pg_followUser_keeps_follows:
  "\<exists>ys. map follows_key (schema_follows (snd (pg_followUser a b db))) =
        map follows_key (schema_follows db) @ ys"
  by (simp add: pg_followUser_def select_where_def Let_def map_key_update_follows
      split: option.split)

lemma pg_unfollowUser_keeps_follows:
  "\<exists>ys. map follows_key (schema_follows (snd (pg_unfollowUser a b db))) =
        map follows_key (schema_follows db) @ ys"
  by (simp add: pg_unfollowUser_def Let_def map_key_update_follows split: option.split)

lemma pg_step_keeps_follows:
  "\<exists>ys. map follows_key (schema_follows (pg_step op db)) = map follows_key (schema_follows db) @ ys"
  by (cases op)
     (simp_all add: pg_likePhoto_others pg_followUser_keeps_follows pg_unfollowUser_keeps_follows
        pg_likeComment_others pg_unlikeComment_def Let_def)

lemma pg_step_keeps_commentLikes:
  "is_soft_op op \<Longrightarrow>
   \<exists>ys. map commentLikes_key (schema_commentLikes (pg_step op db)) =
        map commentLikes_key (schema_commentLikes db) @ ys"
  by (cases op)
     (simp_all add: pg_likePhoto_others pg_followUser_others pg_unfollowUser_others
        pg_likeComment_commentLikes commentLikes_after_def map_key_update_commentLikes)

lemma pg_run_keeps_rows:
  "list_all is_soft_op ops \<Longrightarrow>
   (\<exists>ys. map likes_key (schema_likes (pg_run ops db)) = map likes_key (schema_likes db) @ ys) \<and>
   (\<exists>ys. map follows_key (schema_follows (pg_run ops db)) = map follows_key (schema_follows db) @ ys) \<and>
   (\<exists>ys. map commentLikes_key (schema_commentLikes (pg_run ops db)) =
         map commentLikes_key (schema_commentLikes db) @ ys)"
proof (induction ops arbitrary: db)
  case Nil
  then show ?case by simp
next
  case (Cons op ops)
  obtain l f c where 1:
    "map likes_key (schema_likes (pg_step op db)) = map likes_key (schema_likes db) @ l"
    "map follows_key (schema_follows (pg_step op db)) = map follows_key (schema_follows db) @ f"
    "map commentLikes_key (schema_commentLikes (pg_step op db)) =
       map commentLikes_key (schema_commentLikes db) @ c"
    using Cons.prems pg_step_keeps_likes[of op db] pg_step_keeps_follows[of op db]
      pg_step_keeps_commentLikes[of op db] by auto
  from Cons.prems have "list_all is_soft_op ops" by simp
  from Cons.IH[OF this, of "pg_step op db"] 1 show ?case by auto
qed

lemma take_of_append: "xs' = map f xs @ ys \<Longrightarrow> take (length xs) xs' = map f xs"
  by simp

text \<open>
  Claim C7, as amended. In the relational store, after any sequence of
  \<^verbatim>\<open>likePhoto\<close>, \<^verbatim>\<open>followUser\<close>, \<^verbatim>\<open>unfollowUser\<close> and \<^verbatim>\<open>likeComment\<close> calls the rows
  that were in the three relationship tables are still there, at their positions and
  with their actor and target; only \<open>isDeleted\<close> may differ. In the in-memory store,
  after any sequence of calls without \<^verbatim>\<open>unfollowUser\<close> the follow entries that were
  there are still there, unchanged.
\<close>

theorem rows_are_kept:
  assumes "list_all is_soft_op ops" and "follows_wf s" and "list_all (\<lambda>op. \<not> is_unfollow op) mops"
  shows "take (length (schema_likes db)) (map likes_key (schema_likes (pg_run ops db))) =
           map likes_key (schema_likes db) \<and>
         take (length (schema_follows db)) (map follows_key (schema_follows (pg_run ops db))) =
           map follows_key (schema_follows db) \<and>
         take (length (schema_commentLikes db))
              (map commentLikes_key (schema_commentLikes (pg_run ops db))) =
           map commentLikes_key (schema_commentLikes db) \<and>
         take (length (follows s)) (follows (mem_run mops s)) = follows s"
proof -
  from mem_run_keeps_follows[OF assms(2,3)] obtain ys where
    "follows (mem_run mops s) = follows s @ ys" by blast
  then have "take (length (follows s)) (follows (mem_run mops s)) = follows s" by simp
  with pg_run_keeps_rows[OF assms(1), of db] show ?thesis
    by (auto simp add: take_of_append)
qed

text \<open>
  A relational store with one row in each table and an in-memory store with one
  follow, each followed by four more calls.
\<close>

theorem rows_are_kept_witness:
  "list_all is_soft_op [PgLikePhoto 1 1, PgUnfollowUser 1 2, PgLikeComment 2 1, PgFollowUser 2 (1::nat)] \<and>
   follows_wf (mem_run [FollowUser 1 2] mem_example) \<and>
   list_all (\<lambda>op. \<not> is_unfollow op) [FollowUser 1 2, LikePhoto 1 1, FollowUser 2 1] \<and>
   map likes_key (schema_likes (pg_run [PgLikePhoto 1 1, PgFollowUser 1 2, PgLikeComment 2 1] pg_example)) = [(1, 1)] \<and>
   take 1 (map likes_key (schema_likes
     (pg_run [PgLikePhoto 1 1, PgUnfollowUser 1 2, PgLikeComment 2 1, PgFollowUser 2 1]
       (pg_run [PgLikePhoto 1 1, PgFollowUser 1 2, PgLikeComment 2 1] pg_example)))) = [(1, 1)] \<and>
   take 1 (map follows_key (schema_follows
     (pg_run [PgLikePhoto 1 1, PgUnfollowUser 1 2, PgLikeComment 2 1, PgFollowUser 2 1]
       (pg_run [PgLikePhoto 1 1, PgFollowUser 1 2, PgLikeComment 2 1] pg_example)))) = [(1, 2)] \<and>
   take 1 (map commentLikes_key (schema_commentLikes
     (pg_run [PgLikePhoto 1 1, PgUnfollowUser 1 2, PgLikeComment 2 1, PgFollowUser 2 1]
       (pg_run [PgLikePhoto 1 1, PgFollowUser 1 2, PgLikeComment 2 1] pg_example)))) = [(2, 1)] \<and>
   take 1 (follows (mem_run [FollowUser 1 2, LikePhoto 1 1, FollowUser 2 1]
     (mem_run [FollowUser 1 2] mem_example))) = follows (mem_run [FollowUser 1 2] mem_example)"
proof -
  let ?ops = "[PgLikePhoto 1 1, PgUnfollowUser 1 2, PgLikeComment 2 1, PgFollowUser 2 (1::nat)]"
  let ?db = "pg_run [PgLikePhoto 1 1, PgFollowUser 1 2, PgLikeComment 2 1] pg_example"
  let ?s = "mem_run [FollowUser 1 2] mem_example"
  let ?mops = "[FollowUser 1 2, LikePhoto 1 1, FollowUser 2 1]"
  have h1: "list_all is_soft_op ?ops" by simp
  have h2: "follows_wf ?s" by (rule mem_run_wf) (rule mem_example_wf)
  have h3: "list_all (\<lambda>op. \<not> is_unfollow op) ?mops" by simp
  have db: "map likes_key (schema_likes ?db) = [(1, 1)]"
    "map follows_key (schema_follows ?db) = [(1, 2)]"
    "map commentLikes_key (schema_commentLikes ?db) = [(2, 1)]"
    by (simp_all add: pg_eval likes_key_def follows_key_def commentLikes_key_def)
  have len: "length (schema_likes ?db) = 1" "length (schema_follows ?db) = 1"
    "length (schema_commentLikes ?db) = 1"
    using db[THEN arg_cong, of length] by (simp_all del: pg_run.simps)
  have s: "length (follows ?s) = 1"
    by (simp add: mem_followUser_def mem_isFollowing_def js_values_def js_set_def mem_example_eval Let_def)
  from rows_are_kept[OF h1 h2 h3, of ?db] show ?thesis
    unfolding db len s using h1 h2 h3 db by blast
qed

text \<open>
  Claim C7 as stated fails: the in-memory \<^verbatim>\<open>unfollowUser\<close> removes the follow entry,
  and the relational \<^verbatim>\<open>unlikeComment\<close> deletes the comment-like row.
\<close>

theorem unfollow_and_unlike_remove_rows:
  "length (follows (mem_run [FollowUser 1 2] mem_example)) = 1 \<and>
   follows (mem_run [FollowUser 1 2, UnfollowUser 1 2] mem_example) = [] \<and>
   length (schema_commentLikes (pg_run [PgLikeComment 1 1] pg_example)) = 1 \<and>
   schema_commentLikes (pg_run [PgLikeComment 1 1, PgUnlikeComment 1 1] pg_example) = []"
  by (simp add: pg_eval mem_followUser_def mem_unfollowUser_def mem_isFollowing_def js_values_def
      js_set_def js_delete_def)

section \<open>Following twice\<close>

lemma mem_follows_of_pair_append:
  "mem_follows_of_pair a b (m @ [(k, \<lparr>follow_id = i, followerId = a', followingId = b'\<rparr>)]) =
   mem_follows_of_pair a b m + (if a = a' \<and> b = b' then 1 else 0)"
  by (simp add: mem_follows_of_pair_def js_values_def)

lemma follows_of_pair_append:
  "follows_of_pair a b (t @ [\<lparr>follows_followerId = a', follows_followingId = b', follows_isDeleted = d\<rparr>]) =
   follows_of_pair a b t + (if a = a' \<and> b = b' then 1 else 0)"
  by (simp add: follows_of_pair_def)

lemma active_follows_of_pair_append:
  "active_follows_of_pair a b (t @ [\<lparr>follows_followerId = a', follows_followingId = b', follows_isDeleted = False\<rparr>]) =
   active_follows_of_pair a b t + (if a = a' \<and> b = b' then 1 else 0)"
  by (simp add: active_follows_of_pair_def)

text \<open>
  Claim C6, as amended. User \<open>U\<close> exists with \<open>followerCount = 0\<close> and there is no
  follow row for \<open>(F, U)\<close>. After \<^verbatim>\<open>followUser(F, U)\<close> twice: in the in-memory store
  the counter is 1 after the first call and still 1 after the second, and one entry
  for the pair exists; in the relational store the counter is 1 after the first call,
  and after the second exactly one row for the pair exists and it is not flagged
  deleted.
\<close>

theorem follow_twice:
  assumes "follows_wf s" and "users s U = Some usr" and "followerCount usr = 0"
    and "mem_follows_of_pair F U (follows s) = 0"
    and "schema_users db U = Some row" and "followerCount row = 0"
    and "follows_of_pair F U (schema_follows db) = 0"
  shows "map_option followerCount (users (mem_run [FollowUser F U] s) U) = Some 1 \<and>
         map_option followerCount (users (mem_run [FollowUser F U, FollowUser F U] s) U) = Some 1 \<and>
         mem_follows_of_pair F U (follows (mem_run [FollowUser F U, FollowUser F U] s)) = 1 \<and>
         map_option followerCount (schema_users (pg_run [PgFollowUser F U] db) U) = Some 1 \<and>
         follows_of_pair F U (schema_follows (pg_run [PgFollowUser F U, PgFollowUser F U] db)) = 1 \<and>
         active_follows_of_pair F U (schema_follows (pg_run [PgFollowUser F U, PgFollowUser F U] db)) = 1"
proof -
  let ?s1 = "snd (mem_followUser F U s)"
  have nf: "\<not> mem_isFollowing F U s"
    using assms(4) by (simp add: mem_isFollowing_count)
  have u1: "map_option followerCount (users ?s1 U) = Some 1"
    using assms(2,3) by (simp add: mem_followUser_users[OF nf] update_id_def)
  have c1: "mem_follows_of_pair F U (follows ?s1) = 1"
    using assms(4) by (simp add: mem_followUser_follows[OF assms(1) nf] mem_follows_of_pair_append)
  then have "mem_isFollowing F U ?s1" by (simp add: mem_isFollowing_count)
  then have s2: "snd (mem_followUser F U ?s1) = ?s1" by (simp add: mem_followUser_already)
  let ?d1 = "snd (pg_followUser F U db)"
  have fit0: "int4 (followerCount row + 1)"
    using assms(6) by (simp add: int4_def)
  have f1: "schema_follows ?d1 = schema_follows db @
      [\<lparr>follows_followerId = F, follows_followingId = U, follows_isDeleted = False\<rparr>]"
    using assms(7) by (simp add: pg_followUser_follows[OF assms(5) fit0])
  have p1: "map_option followerCount (schema_users ?d1 U) = Some 1"
    using assms(5,6) by (simp add: pg_followUser_users[OF assms(5) fit0] update_id_def)
  then obtain row1 where ex: "schema_users ?d1 U = Some row1" "followerCount row1 = 1" by auto
  have fit1: "int4 (followerCount row1 + 1)"
    using ex by (simp add: int4_def)
  have n1: "follows_of_pair F U (schema_follows ?d1) = 1"
    using assms(7) by (simp add: f1 follows_of_pair_append)
  have f2: "schema_follows (snd (pg_followUser F U ?d1)) =
      update_where (\<lambda>r. r\<lparr>follows_isDeleted := False\<rparr>)
        (\<lambda>r. follows_followerId r = F \<and> follows_followingId r = U) (schema_follows ?d1)"
    using n1 by (simp add: pg_followUser_follows[OF ex(1) fit1])
  have n2: "follows_of_pair F U (schema_follows (snd (pg_followUser F U ?d1))) = 1"
    using n1 by (simp only: f2 follows_of_pair_update)
  have a2: "active_follows_of_pair F U (schema_follows (snd (pg_followUser F U ?d1))) = 1"
    using n1 by (simp only: f2 active_follows_clear_same)
  show ?thesis using u1 c1 s2 p1 n2 a2 by simp
qed

text \<open>
  User 1 follows user 2 twice on the example stores.
\<close>

theorem follow_twice_witness:
  "follows_wf mem_example \<and> map_option followerCount (users mem_example 2) = Some 0 \<and>
   mem_follows_of_pair 1 2 (follows mem_example) = 0 \<and>
   map_option followerCount (schema_users pg_example 2) = Some 0 \<and>
   follows_of_pair 1 2 (schema_follows pg_example) = 0 \<and>
   map_option followerCount (users (mem_run [FollowUser 1 2, FollowUser 1 2] mem_example) 2) = Some 1 \<and>
   mem_follows_of_pair 1 2 (follows (mem_run [FollowUser 1 2, FollowUser 1 2] mem_example)) = 1 \<and>
   follows_of_pair 1 2 (schema_follows (pg_run [PgFollowUser 1 2, PgFollowUser 1 2] pg_example)) = 1 \<and>
   active_follows_of_pair 1 2 (schema_follows (pg_run [PgFollowUser 1 2, PgFollowUser 1 2] pg_example)) = 1"
proof -
  have wf: "follows_wf mem_example" by (rule mem_example_wf)
  obtain usr where usr: "users mem_example 2 = Some usr" "followerCount usr = 0"
    by (simp add: mem_example_eval)
  have none: "mem_follows_of_pair 1 2 (follows mem_example) = 0"
    by (simp add: mem_follows_of_pair_def js_values_def mem_example_eval)
  have row: "schema_users pg_example 2 = Some usr" by (simp add: pg_example_def usr)
  have pnone: "follows_of_pair 1 2 (schema_follows pg_example) = 0"
    by (simp add: follows_of_pair_def pg_example_def)
  from follow_twice[OF wf usr none row usr(2) pnone] show ?thesis
    using wf usr none row pnone by simp
qed

text \<open>
  Claim C6 as stated fails: the second \<^verbatim>\<open>followUser\<close> does not switch the follow
  off. The in-memory counter goes 0, 1, 1; the relational counter ends at 2 and the row
  has \<open>isDeleted = false\<close>.
\<close>

theorem second_follow_is_not_an_unfollow:
  "map_option followerCount (users mem_example 2) = Some 0 \<and>
   map_option followerCount (users (mem_run [FollowUser 1 2] mem_example) 2) = Some 1 \<and>
   map_option followerCount (users (mem_run [FollowUser 1 2, FollowUser 1 2] mem_example) 2) = Some 1 \<and>
   map_option followerCount (schema_users (pg_run [PgFollowUser 1 2, PgFollowUser 1 2] pg_example) 2) = Some 2 \<and>
   map follows_isDeleted (schema_follows (pg_run [PgFollowUser 1 2, PgFollowUser 1 2] pg_example)) = [False]"
  by (simp add: pg_eval mem_followUser_def mem_isFollowing_def js_values_def js_set_def)

section \<open>The two stores under proper follow calls\<close>

lemma find_Some_in: "find Q m = Some e \<Longrightarrow> e \<in> set m \<and> Q e"
  by (induction m) (auto split: if_splits)

lemma find_None_count: "find Q m = None \<longleftrightarrow> filter Q m = []"
  by (induction m) auto

lemma js_delete_count:
  assumes "distinct (map fst m)" and "(k, f) \<in> set m"
  shows "length (filter P (js_values (js_delete k m))) + (if P f then 1 else 0) =
         length (filter P (js_values m))"
  using assms
proof (induction m)
  case Nil
  then show ?case by simp
next
  case (Cons e m)
  show ?case
  proof (cases "fst e = k")
    case True
    with Cons.prems have e: "e = (k, f)" and "k \<notin> fst ` set m"
      by (auto simp: rev_image_eqI)
    then have "js_delete k m = m"
      by (force simp add: js_delete_def filter_id_conv)
    with e show ?thesis by (simp add: js_delete_def js_values_def)
  next
    case False
    with Cons.prems have "(k, f) \<in> set m" "distinct (map fst m)" by auto
    from Cons.IH[OF this(2,1)] False show ?thesis
      by (cases e) (simp add: js_delete_def js_values_def)
  qed
qed

lemma mem_unfollowUser_not_following:
  "\<not> mem_isFollowing a b s \<Longrightarrow> mem_unfollowUser a b s = (Returned (), s)"
proof -
  assume "\<not> mem_isFollowing a b s"
  then have "find (\<lambda>(_, follow). followerId follow = a \<and> followingId follow = b) (follows s) = None"
    by (auto simp add: mem_isFollowing_def js_values_def list_ex_iff find_None_count filter_empty_conv)
  then show ?thesis by (simp add: mem_unfollowUser_def)
qed

lemma mem_unfollowUser_entry:
  assumes "mem_isFollowing a b s"
  obtains k f where "(k, f) \<in> set (follows s)" "followerId f = a" "followingId f = b"
    "follows (snd (mem_unfollowUser a b s)) = js_delete k (follows s)"
proof -
  from assms have "find (\<lambda>(_, follow). followerId follow = a \<and> followingId follow = b) (follows s) \<noteq> None"
    by (auto simp add: mem_isFollowing_def js_values_def list_ex_iff find_None_count filter_empty_conv)
  then obtain e where e: "find (\<lambda>(_, follow). followerId follow = a \<and> followingId follow = b) (follows s) = Some e"
    by auto
  from find_Some_in[OF e] e that[of "fst e" "snd e"] show ?thesis
    by (auto simp add: mem_unfollowUser_follows)
qed

lemma mem_unfollowUser_users:
  assumes "mem_isFollowing a b s" and "users s b = Some u" and "followerCount u > 0"
  shows "users (snd (mem_unfollowUser a b s)) =
         update_id (\<lambda>r. r\<lparr>followerCount := followerCount r - 1\<rparr>) b (users s)"
proof -
  from assms(1) have "find (\<lambda>(_, follow). followerId follow = a \<and> followingId follow = b) (follows s) \<noteq> None"
    by (auto simp add: mem_isFollowing_def js_values_def list_ex_iff find_None_count filter_empty_conv)
  with assms(2,3) show ?thesis
    by (auto simp add: mem_unfollowUser_def Let_def update_id_def)
qed

lemma mem_follow_others:
  "photos (snd (mem_followUser a b s)) = photos s"
  "comments (snd (mem_followUser a b s)) = comments s"
  "photos (snd (mem_unfollowUser a b s)) = photos s"
  "comments (snd (mem_unfollowUser a b s)) = comments s"
  by (simp_all add: mem_followUser_def mem_unfollowUser_def Let_def split: option.split)


lemma pg_followUser_isFollowing:
  assumes "schema_users db b = Some u" and "int4 (followerCount u + 1)"
  shows "pg_isFollowing a' b' (snd (pg_followUser a b db)) \<longleftrightarrow>
         (a', b') = (a, b) \<or> pg_isFollowing a' b' db"
proof (cases "(a', b') = (a, b)")
  case True
  then show ?thesis
    by (auto simp add: pg_isFollowing_active pg_followUser_follows[OF assms]
        active_follows_clear_same active_follows_of_pair_append)
next
  case False
  then show ?thesis
    by (auto simp add: pg_isFollowing_active pg_followUser_follows[OF assms]
        active_follows_update_other active_follows_of_pair_append)
qed

lemma pg_unfollowUser_isFollowing:
  assumes "schema_users db b = Some u" and "int4 (followerCount u - 1)"
  shows "pg_isFollowing a' b' (snd (pg_unfollowUser a b db)) \<longleftrightarrow>
         (a', b') \<noteq> (a, b) \<and> pg_isFollowing a' b' db"
proof (cases "(a', b') = (a, b)")
  case True
  then show ?thesis
    by (auto simp add: pg_isFollowing_active pg_unfollowUser_follows[OF assms]
        active_follows_flag_same)
next
  case False
  then show ?thesis
    by (auto simp add: pg_isFollowing_active pg_unfollowUser_follows[OF assms]
        active_follows_update_other)
qed

lemma mem_follows_to_append:
  "mem_follows_to b' (m @ [(k, \<lparr>follow_id = i, followerId = a, followingId = b\<rparr>)]) =
   mem_follows_to b' m + (if b' = b then 1 else 0)"
  by (simp add: mem_follows_to_def js_values_def)

lemma mem_followUser_isFollowing:
  assumes "follows_wf s"
  shows "mem_isFollowing a' b' (snd (mem_followUser a b s)) \<longleftrightarrow>
         (a', b') = (a, b) \<or> mem_isFollowing a' b' s"
proof (cases "mem_isFollowing a b s")
  case True
  then show ?thesis by (auto simp add: mem_followUser_already)
next
  case False
  then show ?thesis
    by (auto simp add: mem_isFollowing_count mem_followUser_follows[OF assms False]
        mem_follows_of_pair_append)
qed

lemma mem_unfollowUser_counts:
  assumes "follows_wf s" and "mem_isFollowing a b s"
  shows "mem_follows_of_pair a' b' (follows (snd (mem_unfollowUser a b s))) +
           (if (a', b') = (a, b) then 1 else 0) = mem_follows_of_pair a' b' (follows s)"
    and "mem_follows_to b' (follows (snd (mem_unfollowUser a b s))) +
           (if b' = b then 1 else 0) = mem_follows_to b' (follows s)"
proof -
  from assms(1) have d: "distinct (map fst (follows s))" by (simp add: follows_wf_def)
  from mem_unfollowUser_entry[OF assms(2)] obtain k f where e:
    "(k, f) \<in> set (follows s)" "followerId f = a" "followingId f = b"
    "follows (snd (mem_unfollowUser a b s)) = js_delete k (follows s)" by blast
  from js_delete_count[OF d e(1), of "\<lambda>follow. followerId follow = a' \<and> followingId follow = b'"] e
  show "mem_follows_of_pair a' b' (follows (snd (mem_unfollowUser a b s))) +
           (if (a', b') = (a, b) then 1 else 0) = mem_follows_of_pair a' b' (follows s)"
    by (auto simp add: mem_follows_of_pair_def split: if_splits)
  from js_delete_count[OF d e(1), of "\<lambda>follow. followingId follow = b'"] e
  show "mem_follows_to b' (follows (snd (mem_unfollowUser a b s))) +
           (if b' = b then 1 else 0) = mem_follows_to b' (follows s)"
    by (auto simp add: mem_follows_to_def split: if_splits)
qed

lemma mem_unfollowUser_isFollowing:
  assumes "follows_wf s" and "mem_follows_of_pair a b (follows s) \<le> 1"
  shows "mem_isFollowing a' b' (snd (mem_unfollowUser a b s)) \<longleftrightarrow>
         (a', b') \<noteq> (a, b) \<and> mem_isFollowing a' b' s"
proof (cases "mem_isFollowing a b s")
  case False
  then show ?thesis by (auto simp add: mem_unfollowUser_not_following)
next
  case True
  from mem_unfollowUser_counts(1)[OF assms(1) True, of a' b'] assms(2) show ?thesis
    by (auto simp add: mem_isFollowing_count split: if_splits)
qed


lemma mem_followUser_inv:
  assumes "mem_follow_inv s"
  shows "mem_follow_inv (snd (mem_followUser a b s))"
proof (cases "mem_isFollowing a b s")
  case True
  with assms show ?thesis by (simp add: mem_followUser_already)
next
  case False
  from assms have wf: "follows_wf s" by (simp add: mem_follow_inv_def)
  let ?s = "snd (mem_followUser a b s)"
  have zero: "mem_follows_of_pair a b (follows s) = 0"
    using False by (simp add: mem_isFollowing_count)
  have 1: "mem_follows_of_pair a' b' (follows ?s) \<le> 1" for a' b'
    using assms zero
    by (auto simp add: mem_follow_inv_def mem_followUser_follows[OF wf False] mem_follows_of_pair_append)
  have 2: "int (mem_follows_to b' (follows ?s)) \<le> followerCount u"
    if "users ?s b' = Some u" for b' u
  proof (cases "b' = b")
    case True
    with that obtain u0 where "users s b = Some u0" "followerCount u = followerCount u0 + 1"
      by (auto simp add: mem_followUser_users[OF False] update_id_def split: option.splits)
    with assms True show ?thesis
      by (auto simp add: mem_follow_inv_def mem_followUser_follows[OF wf False] mem_follows_to_append)
  next
    case False
    with that have "users s b' = Some u"
      by (auto simp add: mem_followUser_users[OF \<open>\<not> mem_isFollowing a b s\<close>] update_id_def
          split: option.splits)
    with assms False show ?thesis
      by (auto simp add: mem_follow_inv_def
          mem_followUser_follows[OF wf \<open>\<not> mem_isFollowing a b s\<close>] mem_follows_to_append)
  qed
  from 1 2 mem_followUser_wf[OF wf] show ?thesis by (simp add: mem_follow_inv_def)
qed

lemma mem_unfollowUser_users_general:
  "users (snd (mem_unfollowUser a b s)) b' =
     (if b' = b \<and> mem_isFollowing a b s
      then (case users s b of None \<Rightarrow> None
            | Some u \<Rightarrow> Some (if followerCount u > 0 then u\<lparr>followerCount := followerCount u - 1\<rparr> else u))
      else users s b')"
proof (cases "mem_isFollowing a b s")
  case False
  then show ?thesis by (simp add: mem_unfollowUser_not_following)
next
  case True
  then have "find (\<lambda>(_, follow). followerId follow = a \<and> followingId follow = b) (follows s) \<noteq> None"
    by (auto simp add: mem_isFollowing_def js_values_def list_ex_iff find_None_count filter_empty_conv)
  with True show ?thesis
    by (auto simp add: mem_unfollowUser_def Let_def split: option.split)
qed

lemma mem_unfollowUser_inv:
  assumes "mem_follow_inv s"
  shows "mem_follow_inv (snd (mem_unfollowUser a b s))"
proof (cases "mem_isFollowing a b s")
  case False
  with assms show ?thesis by (simp add: mem_unfollowUser_not_following)
next
  case True
  from assms have wf: "follows_wf s" by (simp add: mem_follow_inv_def)
  let ?s = "snd (mem_unfollowUser a b s)"
  have 1: "mem_follows_of_pair a' b' (follows ?s) \<le> 1" for a' b'
  proof -
    from assms have "mem_follows_of_pair a' b' (follows s) \<le> 1"
      by (simp add: mem_follow_inv_def)
    with mem_unfollowUser_counts(1)[OF wf True, of a' b'] show ?thesis by linarith
  qed
  have 2: "int (mem_follows_to b' (follows ?s)) \<le> followerCount u"
    if "users ?s b' = Some u" for b' u
  proof (cases "b' = b")
    case False
    with that have "users s b' = Some u" by (simp add: mem_unfollowUser_users_general)
    with assms have "int (mem_follows_to b' (follows s)) \<le> followerCount u"
      by (simp add: mem_follow_inv_def)
    with mem_unfollowUser_counts(2)[OF wf True, of b'] False show ?thesis by simp
  next
    case b: True
    with that True obtain u0 where u0: "users s b = Some u0"
      "u = (if followerCount u0 > 0 then u0\<lparr>followerCount := followerCount u0 - 1\<rparr> else u0)"
      by (auto simp add: mem_unfollowUser_users_general split: option.splits)
    with assms have "int (mem_follows_to b (follows s)) \<le> followerCount u0"
      by (simp add: mem_follow_inv_def)
    with mem_unfollowUser_counts(2)[OF wf True, of b] u0 b show ?thesis
      by (auto split: if_splits)
  qed
  from 1 2 mem_unfollowUser_wf[OF wf] show ?thesis by (simp add: mem_follow_inv_def)
qed

lemma mem_follow_inv_nonneg:
  assumes "mem_follow_inv s" and "users s b = Some u"
  shows "0 \<le> followerCount u"
proof -
  from assms have "int (mem_follows_to b (follows s)) \<le> followerCount u"
    by (simp add: mem_follow_inv_def)
  then show ?thesis by linarith
qed

lemma follow_step_agree:
  assumes "backends_agree s db" and "mem_follow_inv s" and "users s b \<noteq> None"
    and "\<not> mem_isFollowing a b s" and "followers_fit (Suc n) s"
  shows "backends_agree (snd (mem_followUser a b s)) (snd (pg_followUser a b db))"
proof -
  from assms(2) have wf: "follows_wf s" by (simp add: mem_follow_inv_def)
  from assms(3) obtain u where u: "users s b = Some u" by auto
  with assms(1) have ex: "schema_users db b = Some u" by (simp add: backends_agree_def)
  from assms(5) u have "followerCount u + int (Suc n) \<le> 2147483647"
    unfolding followers_fit_def by blast
  with mem_follow_inv_nonneg[OF assms(2) u] have fit: "int4 (followerCount u + 1)"
    by (simp add: int4_def)
  show ?thesis
    using assms(1)
    by (simp add: backends_agree_def mem_followUser_users[OF assms(4)]
        pg_followUser_users[OF ex fit] mem_follow_others pg_followUser_others
        mem_followUser_isFollowing[OF wf] pg_followUser_isFollowing[OF ex fit])
qed

lemma unfollow_step_agree:
  assumes "backends_agree s db" and "mem_follow_inv s" and "users s b \<noteq> None"
    and "mem_isFollowing a b s" and "followers_fit n s"
  shows "backends_agree (snd (mem_unfollowUser a b s)) (snd (pg_unfollowUser a b db))"
proof -
  from assms(2) have wf: "follows_wf s" and uniq: "mem_follows_of_pair a b (follows s) \<le> 1"
    by (simp_all add: mem_follow_inv_def)
  from assms(3) obtain u where u: "users s b = Some u" by auto
  with assms(1) have ex: "schema_users db b = Some u" by (simp add: backends_agree_def)
  from assms(4) have "mem_follows_of_pair a b (follows s) > 0" by (simp add: mem_isFollowing_count)
  then have "mem_follows_to b (follows s) > 0"
    by (auto simp add: mem_follows_of_pair_def mem_follows_to_def filter_empty_conv)
  with assms(2) u have pos: "followerCount u > 0" by (fastforce simp add: mem_follow_inv_def)
  from assms(5) u have "followerCount u + int n \<le> 2147483647"
    unfolding followers_fit_def by blast
  with pos have fit: "int4 (followerCount u - 1)"
    by (simp add: int4_def)
  show ?thesis
    using assms(1)
    by (simp add: backends_agree_def mem_unfollowUser_users[OF assms(4) u pos]
        pg_unfollowUser_users[OF ex fit] mem_follow_others pg_unfollowUser_others
        mem_unfollowUser_isFollowing[OF wf uniq] pg_unfollowUser_isFollowing[OF ex fit])
qed

lemma mem_followUser_fit:
  assumes "followers_fit (Suc n) s"
  shows "followers_fit n (snd (mem_followUser a b s))"
  unfolding followers_fit_def
proof (intro allI impI)
  fix b' u'
  assume u': "users (snd (mem_followUser a b s)) b' = Some u'"
  then obtain u0 where "users s b' = Some u0" "followerCount u' \<le> followerCount u0 + 1"
    by (cases "mem_isFollowing a b s")
       (auto simp add: mem_followUser_already mem_followUser_users update_id_def
          split: option.splits if_splits)
  moreover from this(1) assms have "followerCount u0 + int (Suc n) \<le> 2147483647"
    unfolding followers_fit_def by blast
  ultimately show "followerCount u' + int n \<le> 2147483647" by simp
qed

lemma mem_unfollowUser_fit:
  assumes "followers_fit (Suc n) s"
  shows "followers_fit n (snd (mem_unfollowUser a b s))"
  unfolding followers_fit_def
proof (intro allI impI)
  fix b' u'
  assume u': "users (snd (mem_unfollowUser a b s)) b' = Some u'"
  then obtain u0 where "users s b' = Some u0" "followerCount u' \<le> followerCount u0"
    by (auto simp add: mem_unfollowUser_users_general split: option.splits if_splits)
  moreover from this(1) assms have "followerCount u0 + int (Suc n) \<le> 2147483647"
    unfolding followers_fit_def by blast
  ultimately show "followerCount u' + int n \<le> 2147483647" by simp
qed

lemma proper_calls_agree:
  "backends_agree s db \<Longrightarrow> mem_follow_inv s \<Longrightarrow> proper_calls cs s \<Longrightarrow>
   followers_fit (length cs) s \<Longrightarrow>
   backends_agree (mem_run (map mem_call cs) s) (pg_run (map pg_call cs) db) \<and>
   mem_follow_inv (mem_run (map mem_call cs) s)"
proof (induction cs arbitrary: s db)
  case Nil
  then show ?case by simp
next
  case (Cons c cs)
  from Cons.prems(4) have fit: "followers_fit (Suc (length cs)) s" by simp
  show ?case
  proof (cases c)
    case (CallFollow a b)
    with Cons.prems fit have
      "backends_agree (snd (mem_followUser a b s)) (snd (pg_followUser a b db))"
      "mem_follow_inv (snd (mem_followUser a b s))"
      "proper_calls cs (snd (mem_followUser a b s))"
      "followers_fit (length cs) (snd (mem_followUser a b s))"
      by (simp_all add: follow_step_agree[OF _ _ _ _ fit] mem_followUser_inv mem_followUser_fit)
    from Cons.IH[OF this] CallFollow show ?thesis by simp
  next
    case (CallUnfollow a b)
    with Cons.prems fit have
      "backends_agree (snd (mem_unfollowUser a b s)) (snd (pg_unfollowUser a b db))"
      "mem_follow_inv (snd (mem_unfollowUser a b s))"
      "proper_calls cs (snd (mem_unfollowUser a b s))"
      "followers_fit (length cs) (snd (mem_unfollowUser a b s))"
      by (simp_all add: unfollow_step_agree[OF _ _ _ _ fit] mem_unfollowUser_inv
          mem_unfollowUser_fit)
    from Cons.IH[OF this] CallUnfollow show ?thesis by simp
  qed
qed

text \<open>
  Claim C8, as amended. Take any sequence of follow and unfollow calls on existing
  users in which a follow is issued only for a pair that is not following and an
  unfollow only for a pair that is, and which leaves every \<open>followerCount\<close> within the
  32-bit column (each stored counter plus the number of calls is at most 2147483647).
  Applied to both stores from states that agree (with the in-memory follows well
  formed), it leaves states that agree: the same users, photos and comments with all
  their counters, and the same following pairs.
\<close>

theorem backends_agree_on_proper_follow_calls:
  assumes "backends_agree s db" and "mem_follow_inv s" and "proper_calls cs s"
    and "followers_fit (length cs) s"
  shows "backends_agree (mem_run (map mem_call cs) s) (pg_run (map pg_call cs) db)"
  using proper_calls_agree[OF assms] by simp

text \<open>
  Follow, follow back, unfollow, follow again on the example stores.
\<close>

theorem backends_agree_on_proper_follow_calls_witness:
  "backends_agree mem_example pg_example \<and> mem_follow_inv mem_example \<and>
   proper_calls [CallFollow 1 2, CallFollow 2 1, CallUnfollow 1 2, CallFollow 1 2] mem_example \<and>
   followers_fit 4 mem_example \<and>
   backends_agree
     (mem_run [FollowUser 1 2, FollowUser 2 1, UnfollowUser 1 2, FollowUser 1 2] mem_example)
     (pg_run [PgFollowUser 1 2, PgFollowUser 2 1, PgUnfollowUser 1 2, PgFollowUser 1 2] pg_example) \<and>
   map_option followerCount (users
     (mem_run [FollowUser 1 2, FollowUser 2 1, UnfollowUser 1 2, FollowUser 1 2] mem_example) 2) = Some 1 \<and>
   mem_isFollowing 1 2
     (mem_run [FollowUser 1 2, FollowUser 2 1, UnfollowUser 1 2, FollowUser 1 2] mem_example)"
proof -
  let ?cs = "[CallFollow 1 2, CallFollow 2 1, CallUnfollow 1 2, CallFollow 1 2]"
  have agree: "backends_agree mem_example pg_example"
    by (simp add: backends_agree_def pg_example_def mem_isFollowing_def pg_isFollowing_def
        select_where_def js_values_def mem_example_eval)
  have zero: "users mem_example b = Some u \<Longrightarrow> followerCount u = 0" for b u
    by (auto simp add: mem_example_def MemStorage_new_def mem_createUser_def mem_createPhoto_def
        mem_createComment_def Let_def split: if_splits)
  have fit: "followers_fit 4 mem_example"
    using zero by (auto simp add: followers_fit_def)
  have fit': "followers_fit (length ?cs) mem_example"
    using zero by (auto simp add: followers_fit_def)
  have inv: "mem_follow_inv mem_example"
    using zero
    by (simp add: mem_follow_inv_def mem_example_wf mem_follows_of_pair_def mem_follows_to_def
        js_values_def mem_example_eval)
  have eval: "proper_calls ?cs mem_example"
    "map_option followerCount (users
       (mem_run [FollowUser 1 2, FollowUser 2 1, UnfollowUser 1 2, FollowUser 1 2] mem_example) 2) = Some 1"
    "mem_isFollowing 1 2
       (mem_run [FollowUser 1 2, FollowUser 2 1, UnfollowUser 1 2, FollowUser 1 2] mem_example)"
    by (simp_all add: mem_followUser_def mem_unfollowUser_def mem_isFollowing_def js_values_def
        js_set_def js_delete_def mem_example_eval Let_def)
  from backends_agree_on_proper_follow_calls[OF agree inv eval(1) fit']
  have "backends_agree
     (mem_run [FollowUser 1 2, FollowUser 2 1, UnfollowUser 1 2, FollowUser 1 2] mem_example)
     (pg_run [PgFollowUser 1 2, PgFollowUser 2 1, PgUnfollowUser 1 2, PgFollowUser 1 2] pg_example)"
    by simp
  with agree inv eval fit show ?thesis by blast
qed

text \<open>
  Claim C8 as stated fails on likes: from corresponding stores, two \<^verbatim>\<open>likePhoto\<close>
  calls by the same user leave \<open>likeCount = 2\<close> in memory and \<open>likeCount = 0\<close> in the
  relational store.
\<close>

theorem backends_differ_on_likes:
  "schema_photos pg_example = photos mem_example \<and>
   schema_likes pg_example = [] \<and> likes mem_example = [] \<and>
   map_option photo_likeCount (photos (mem_run [LikePhoto 2 1, LikePhoto 2 1] mem_example) 1) = Some 2 \<and>
   map_option photo_likeCount
     (schema_photos (pg_run [PgLikePhoto 2 1, PgLikePhoto 2 1] pg_example) 1) = Some 0"
  by (simp add: pg_eval mem_likePhoto_def)

section \<open>Counters and rows\<close>

lemma pg_step_likes_length:
  "length (schema_likes (pg_step op db)) \<le> length (schema_likes db) + 1"
proof (cases op)
  case (PgLikePhoto u p)
  then show ?thesis by (simp add: pg_likePhoto_likes likes_after_length)
next
  case (PgFollowUser a b)
  then show ?thesis by (simp add: pg_followUser_others)
next
  case (PgUnfollowUser a b)
  then show ?thesis by (simp add: pg_unfollowUser_others)
next
  case (PgLikeComment u c)
  then show ?thesis by (simp add: pg_likeComment_others)
next
  case (PgUnlikeComment u c)
  then show ?thesis by (simp add: pg_unlikeComment_def)
qed

lemma pg_step_commentLikes_length:
  assumes "is_like_toggle op"
  shows "length (schema_commentLikes (pg_step op db)) \<le> length (schema_commentLikes db) + 1"
proof (cases op)
  case (PgLikePhoto u p)
  then show ?thesis by (simp add: pg_likePhoto_others)
next
  case (PgLikeComment u c)
  then show ?thesis by (simp add: pg_likeComment_commentLikes commentLikes_after_length)
qed (use assms in simp_all)

lemma pg_run_like_counters:
  "like_counters_ok db \<Longrightarrow> list_all is_like_toggle ops \<Longrightarrow>
   length (schema_likes db) + length ops \<le> 2147483647 \<Longrightarrow>
   length (schema_commentLikes db) + length ops \<le> 2147483647 \<Longrightarrow>
   like_counters_ok (pg_run ops db)"
proof (induction ops arbitrary: db)
  case Nil
  then show ?case by simp
next
  case (Cons op ops)
  from Cons.prems have room: "length (schema_likes db) < 2147483647"
    "length (schema_commentLikes db) < 2147483647" by simp_all
  from Cons.prems(1,2) room have 1: "like_counters_ok (pg_step op db)"
    by (cases op) (simp_all add: pg_likePhoto_inv pg_likeComment_inv)
  from Cons.prems(2) have 2: "list_all is_like_toggle ops" "is_like_toggle op" by simp_all
  from Cons.prems(3) pg_step_likes_length[of op db]
  have 3: "length (schema_likes (pg_step op db)) + length ops \<le> 2147483647" by simp
  from Cons.prems(4) pg_step_commentLikes_length[OF 2(2), of db]
  have 4: "length (schema_commentLikes (pg_step op db)) + length ops \<le> 2147483647" by simp
  from Cons.IH[OF 1 2(1) 3 4] show ?case by simp
qed

lemma mem_followUser_counters:
  assumes "follower_counters_ok s"
  shows "follower_counters_ok (snd (mem_followUser a b s))"
proof (cases "mem_isFollowing a b s")
  case True
  with assms show ?thesis by (simp add: mem_followUser_already)
next
  case nf: False
  from assms have wf: "follows_wf s" by (simp add: follower_counters_ok_def)
  let ?s = "snd (mem_followUser a b s)"
  have "followerCount u = int (mem_follows_to b' (follows ?s))"
    if "users ?s b' = Some u" for b' u
  proof (cases "b' = b")
    case True
    with that obtain u0 where "users s b = Some u0" "followerCount u = followerCount u0 + 1"
      by (auto simp add: mem_followUser_users[OF nf] update_id_def split: option.splits)
    with assms True show ?thesis
      by (auto simp add: follower_counters_ok_def mem_followUser_follows[OF wf nf] mem_follows_to_append)
  next
    case False
    with that have "users s b' = Some u"
      by (auto simp add: mem_followUser_users[OF nf] update_id_def split: option.splits)
    with assms False show ?thesis
      by (auto simp add: follower_counters_ok_def mem_followUser_follows[OF wf nf] mem_follows_to_append)
  qed
  with mem_followUser_wf[OF wf] show ?thesis by (simp add: follower_counters_ok_def)
qed

lemma mem_unfollowUser_counters:
  assumes "follower_counters_ok s"
  shows "follower_counters_ok (snd (mem_unfollowUser a b s))"
proof (cases "mem_isFollowing a b s")
  case False
  with assms show ?thesis by (simp add: mem_unfollowUser_not_following)
next
  case True
  from assms have wf: "follows_wf s" by (simp add: follower_counters_ok_def)
  let ?s = "snd (mem_unfollowUser a b s)"
  have "followerCount u = int (mem_follows_to b' (follows ?s))"
    if "users ?s b' = Some u" for b' u
  proof (cases "b' = b")
    case False
    with that have "users s b' = Some u" by (simp add: mem_unfollowUser_users_general)
    with assms have "followerCount u = int (mem_follows_to b' (follows s))"
      by (simp add: follower_counters_ok_def)
    with mem_unfollowUser_counts(2)[OF wf True, of b'] False show ?thesis by simp
  next
    case b: True
    with that True obtain u0 where u0: "users s b = Some u0"
      "u = (if followerCount u0 > 0 then u0\<lparr>followerCount := followerCount u0 - 1\<rparr> else u0)"
      by (auto simp add: mem_unfollowUser_users_general split: option.splits)
    with assms have "followerCount u0 = int (mem_follows_to b (follows s))"
      by (simp add: follower_counters_ok_def)
    with mem_unfollowUser_counts(2)[OF wf True, of b] u0 b show ?thesis
      by (auto split: if_splits)
  qed
  with mem_unfollowUser_wf[OF wf] show ?thesis by (simp add: follower_counters_ok_def)
qed

lemma mem_run_follower_counters:
  "follower_counters_ok s \<Longrightarrow> list_all is_follow_op ops \<Longrightarrow> follower_counters_ok (mem_run ops s)"
proof (induction ops arbitrary: s)
  case Nil
  then show ?case by simp
next
  case (Cons op ops)
  from Cons.prems have "follower_counters_ok (mem_step op s)"
    by (cases op) (simp_all add: mem_followUser_counters mem_unfollowUser_counters)
  with Cons show ?case by simp
qed

lemma no_likes_counters_ok:
  assumes "schema_likes db = []" and "schema_commentLikes db = []"
    and "\<And>p ph. schema_photos db p = Some ph \<Longrightarrow> photo_likeCount ph = 0"
    and "\<And>c cm. schema_comments db c = Some cm \<Longrightarrow> comment_likeCount cm = 0"
  shows "like_counters_ok db"
  using assms
  by (simp add: like_counters_ok_def active_likes_def active_commentLikes_def likes_of_pair_def
      commentLikes_of_pair_def)

lemma pg_example_ok: "like_counters_ok pg_example"
  unfolding like_counters_ok_def
  by (auto simp add: pg_example_def mem_example_def MemStorage_new_def mem_createUser_def mem_createPhoto_def
      mem_createComment_def alice_def bob_def or_null_string_def Let_def
      active_likes_def active_commentLikes_def likes_of_pair_def commentLikes_of_pair_def
      split: if_splits)

lemma mem_example_follower_ok: "follower_counters_ok mem_example"
proof -
  have "users mem_example b = Some u \<Longrightarrow> followerCount u = 0" for b u
    by (auto simp add: mem_example_def MemStorage_new_def mem_createUser_def mem_createPhoto_def
        mem_createComment_def Let_def split: if_splits)
  then show ?thesis
    by (simp add: follower_counters_ok_def mem_example_wf mem_follows_to_def js_values_def
        mem_example_eval)
qed

text \<open>
  Claim C1, as amended. In the relational store, start from a state in which every
  photo's and comment's \<open>likeCount\<close> is the number of its like rows with
  \<open>isDeleted = false\<close> and no pair has two rows. After any sequence of \<^verbatim>\<open>likePhoto\<close>
  and \<^verbatim>\<open>likeComment\<close> calls (on existing or missing targets) that leaves room in the
  32-bit counter columns (the number of rows of each like table at the start plus the
  number of calls is at most 2147483647), every stored photo's and comment's
  \<open>likeCount\<close> is again the number of its rows with \<open>isDeleted = false\<close>.
  In the in-memory store, start from a state in which every user's \<open>followerCount\<close>
  is the number of follow entries that point to the user. After any sequence of
  \<^verbatim>\<open>followUser\<close> and \<^verbatim>\<open>unfollowUser\<close> calls, every stored user's \<open>followerCount\<close> is
  again that number.
\<close>

theorem counters_match_rows:
  assumes "like_counters_ok db" and "list_all is_like_toggle ops"
    and "length (schema_likes db) + length ops \<le> 2147483647"
    and "length (schema_commentLikes db) + length ops \<le> 2147483647"
    and "follower_counters_ok s" and "list_all is_follow_op mops"
  shows "(\<forall>p ph. schema_photos (pg_run ops db) p = Some ph \<longrightarrow>
            photo_likeCount ph = int (active_likes p (schema_likes (pg_run ops db)))) \<and>
         (\<forall>c cm. schema_comments (pg_run ops db) c = Some cm \<longrightarrow>
            comment_likeCount cm = int (active_commentLikes c (schema_commentLikes (pg_run ops db)))) \<and>
         (\<forall>b u. users (mem_run mops s) b = Some u \<longrightarrow>
            followerCount u = int (mem_follows_to b (follows (mem_run mops s))))"
  using pg_run_like_counters[OF assms(1,2,3,4)] mem_run_follower_counters[OF assms(5,6)]
  by (simp add: like_counters_ok_def follower_counters_ok_def)

text \<open>
  The scenario of the specification on the example store: A likes photo 1, B likes
  it, A unlikes, A likes again; the counter is 2 and two rows are active. In memory,
  after follows and unfollows user 2 has one follower and one entry.
\<close>

theorem counters_match_rows_witness:
  "like_counters_ok pg_example \<and>
   list_all is_like_toggle [PgLikePhoto 1 1, PgLikePhoto 2 1, PgLikePhoto 1 1, PgLikePhoto 1 1, PgLikeComment 1 (1::nat)] \<and>
   length (schema_likes pg_example) + 5 \<le> 2147483647 \<and>
   length (schema_commentLikes pg_example) + 5 \<le> 2147483647 \<and>
   follower_counters_ok mem_example \<and>
   list_all is_follow_op [FollowUser 1 2, FollowUser 2 1, UnfollowUser 1 2, FollowUser 1 2, UnfollowUser 2 1] \<and>
   map_option photo_likeCount (schema_photos
      (pg_run [PgLikePhoto 1 1, PgLikePhoto 2 1, PgLikePhoto 1 1, PgLikePhoto 1 1, PgLikeComment 1 1] pg_example) 1) = Some 2 \<and>
   active_likes 1 (schema_likes
      (pg_run [PgLikePhoto 1 1, PgLikePhoto 2 1, PgLikePhoto 1 1, PgLikePhoto 1 1, PgLikeComment 1 1] pg_example)) = 2 \<and>
   map_option followerCount (users
      (mem_run [FollowUser 1 2, FollowUser 2 1, UnfollowUser 1 2, FollowUser 1 2, UnfollowUser 2 1] mem_example) 2) = Some 1 \<and>
   mem_follows_to 2 (follows
      (mem_run [FollowUser 1 2, FollowUser 2 1, UnfollowUser 1 2, FollowUser 1 2, UnfollowUser 2 1] mem_example)) = 1"
proof -
  let ?ops = "[PgLikePhoto 1 1, PgLikePhoto 2 1, PgLikePhoto 1 1, PgLikePhoto 1 1, PgLikeComment (1::nat) 1]"
  let ?mops = "[FollowUser 1 2, FollowUser 2 1, UnfollowUser 1 2, FollowUser 1 2, UnfollowUser 2 1]"
  have ops: "list_all is_like_toggle ?ops" "list_all is_follow_op ?mops" by simp_all
  have cnt: "map_option photo_likeCount (schema_photos (pg_run ?ops pg_example) 1) = Some 2"
    by (simp add: pg_eval)
  have fol: "map_option followerCount (users (mem_run ?mops mem_example) 2) = Some 1"
    by (simp add: mem_followUser_def mem_unfollowUser_def mem_isFollowing_def js_values_def
        js_set_def js_delete_def mem_example_eval Let_def)
  have room: "length (schema_likes pg_example) + length ?ops \<le> 2147483647"
    "length (schema_commentLikes pg_example) + length ?ops \<le> 2147483647"
    by (simp_all add: pg_example_def)
  note t = counters_match_rows[OF pg_example_ok ops(1) room mem_example_follower_ok ops(2)]
  from t cnt have 1: "int (active_likes 1 (schema_likes (pg_run ?ops pg_example))) = 2"
    by (auto simp del: pg_run.simps mem_run.simps)
  from t fol have 2: "int (mem_follows_to 2 (follows (mem_run ?mops mem_example))) = 1"
    by (auto simp del: pg_run.simps mem_run.simps)
  from 1 2 show ?thesis using pg_example_ok mem_example_follower_ok ops cnt fol room by simp
qed

text \<open>
  Claim C1 as stated fails in the in-memory store: after one \<^verbatim>\<open>likePhoto\<close> on a
  fresh photo the counter is 1 and there is no like row at all.
\<close>

theorem mem_like_counter_without_rows:
  "map_option photo_likeCount
     (photos (mem_run [CreateUser alice, CreatePhoto 1 ''a.png'' None 10, LikePhoto 1 1] MemStorage_new) 1) = Some 1 \<and>
   mem_likes_of 1
     (likes (mem_run [CreateUser alice, CreatePhoto 1 ''a.png'' None 10, LikePhoto 1 1] MemStorage_new)) = 0"
  by (simp add: MemStorage_new_def mem_createUser_def mem_createPhoto_def mem_likePhoto_def
      mem_likes_of_def js_values_def alice_def or_null_string_def Let_def)

section \<open>Two likes at the same time\<close>

text \<open>
  Run alone, the five steps of a call are \<open>pg_likePhoto\<close>: the same outcome and the
  same database.
\<close>

lemma likePhoto_steps_alone:
  "map call_pc (fst (run_schedule [0, 0, 0, 0, 0] [likePhoto_start u p] db)) =
     [Finished (fst (pg_likePhoto u p db))] \<and>
   snd (run_schedule [0, 0, 0, 0, 0] [likePhoto_start u p] db) = snd (pg_likePhoto u p db)"
  by (simp add: likePhoto_resume_def likePhoto_start_def pg_likePhoto_def Let_def update_id_def
      split: option.split)

text \<open>One call after the other: both likes are counted.\<close>

lemma likes_one_after_the_other:
  "map_option photo_likeCount (schema_photos (snd
     (run_schedule [0, 0, 0, 0, 0, 1, 1, 1, 1, 1] [likePhoto_start 1 1, likePhoto_start 2 1]
        pg_example)) 1) = Some 2"
  by (simp add: likePhoto_resume_def likePhoto_start_def pg_eval)

text \<open>
  Claim C9 (N concurrent toggle-on calls of N distinct actors on one target leave the
  counter at N). Users 1 and 2 like photo 1 of the example store at the same time, and
  both calls have read the photo before either writes the counter. Both calls return,
  the photo has two active like rows, and its \<open>likeCount\<close> is 1: the second counter
  write puts \<open>0 + 1\<close> over the first.
\<close>

theorem concurrent_likes_lose_an_update:
  "map call_pc (fst
     (run_schedule [0, 0, 0, 1, 1, 1, 0, 0, 1, 1] [likePhoto_start 1 1, likePhoto_start 2 1]
        pg_example)) = [Finished (Returned ()), Finished (Returned ())] \<and>
   active_likes 1 (schema_likes (snd
     (run_schedule [0, 0, 0, 1, 1, 1, 0, 0, 1, 1] [likePhoto_start 1 1, likePhoto_start 2 1]
        pg_example))) = 2 \<and>
   map_option photo_likeCount (schema_photos (snd
     (run_schedule [0, 0, 0, 1, 1, 1, 0, 0, 1, 1] [likePhoto_start 1 1, likePhoto_start 2 1]
        pg_example)) 1) = Some 1"
  by (simp add: likePhoto_resume_def likePhoto_start_def pg_eval)

end
